theory Spec2Isabelle
  imports Main "HOL-Library.Sublist"
begin

section \<open>The data of autodnsip.py\<close>

text \<open>
  The program reconciles the host names of a reverse proxy (Nginx Proxy Manager, NPM) with
  A records at Cloudflare. Everything it does beyond computing is made explicit here:
  the HTTP requests it sends (in order), the lines it prints, the three files it reads
  and writes, and the exceptions it raises.

  Strings are \<open>char list\<close>, a character being a code point below 256 (Latin-1);
  the rest of Unicode is not represented. A Python \<open>set\<close> of host names is a
  duplicate-free list; the order in which Python iterates over it is not specified, so
  it is a parameter of the run, one for each of the three sets that \<open>main\<close> builds. A
  Python \<open>dict\<close> from host names to IPs is a map; the program never reads its values.
\<close>

type_synonym hostname = string
type_synonym ip = string

text \<open>One value of \<open>CLOUDFLARE_CONFIG\<close>: the keys \<open>ZONE_ID\<close> and \<open>API_TOKEN\<close>.\<close>

record cf_config =
  ZONE_ID :: string
  API_TOKEN :: string

text \<open>
  \<open>config.py\<close> is not part of the sources; its four values are parameters.
  \<open>CLOUDFLARE_CONFIG\<close> is a dict: its items in insertion order, the keys distinct.
\<close>

record config =
  NPM_API_URL :: string
  NPM_API_USER :: string
  NPM_API_PASS :: string
  CLOUDFLARE_CONFIG :: "(string \<times> cf_config) list"

text \<open>
  One element of the \<open>result\<close> list of a Cloudflare lookup, as far as the program reads
  it: \<open>record.get('id')\<close> and \<open>record.get('content')\<close>, each \<open>None\<close> when the key is
  missing.
\<close>

record dns_record =
  rec_id :: "string option"
  rec_content :: "string option"

text \<open>The JSON document sent by a create (POST) or an update (PUT).\<close>

record a_record =
  rr_type :: string
  rr_name :: hostname
  rr_content :: ip
  rr_ttl :: nat
  rr_proxied :: bool

datatype request =
    POST_tokens string string string
  | GET_proxy_hosts string string
  | GET_ipify
  | GET_dns_records cf_config hostname
  | POST_dns_records cf_config a_record
  | PUT_dns_record cf_config "string option" a_record
  | DELETE_dns_record cf_config "string option"

text \<open>
  The body of an HTTP response, read at the shape the program expects:
  \<open>Not_Json\<close> makes \<open>response.json()\<close> raise; \<open>Json_Hosts\<close> is a JSON list of proxy
  hosts, each given by its \<open>domain_names\<close>; the others are JSON objects, \<open>Json_Other\<close>
  a non-empty one with none of the keys \<open>token\<close>, \<open>ip\<close>, \<open>result\<close> (an error report,
  say).
\<close>

datatype payload =
    Not_Json
  | Json_Token string
  | Json_Hosts "hostname list list"
  | Json_Ip ip
  | Json_Result "dns_record list"
  | Json_Other

text \<open>
  What a call of \<open>requests.get/post/put/delete\<close> comes back with: it raises
  (no connection, timeout), or it returns a response with a status code and a body.
\<close>

datatype response = No_Response | Http nat payload

datatype exn =
    HTTPError nat
  | RequestException
  | JSONDecodeError
  | KeyError
  | TypeError
  | AttributeError
  | RecursionError

text \<open>The lines the program prints, one constructor per \<open>print\<close> statement.\<close>

datatype msg =
    Error_retrieving_public_IP exn
  | Skipping_domain hostname
  | A_record_already_exists hostname
  | A_record_created hostname ip
  | Error_creating_A_record hostname nat
  | Details
  | No_A_record_found_to_update hostname
  | A_record_updated hostname ip
  | Error_updating_A_record hostname nat
  | A_record_already_correct hostname ip
  | No_A_record_found hostname
  | A_record_deleted hostname
  | Error_deleting_A_record hostname nat
  | Could_not_retrieve_public_IP
  | Domain_changes_detected nat nat
  | New_domains "hostname list"
  | Removed_domains "hostname list"
  | IP_change_detected ip ip
  | Initial_IP_detection ip
  | No_changes_detected
  | New_domain_detected hostname ip
  | Error_processing_creation hostname exn
  | Updating_domain hostname ip
  | Forced_update hostname ip
  | Error_updating_domain hostname exn
  | No_changes_needed hostname
  | Deleting_DNS_record hostname
  | Error_processing_deletion hostname exn

text \<open>
  The effects of a run so far: the requests sent, oldest first, and the lines printed.
\<close>

record io =
  reqs :: "request list"
  out :: "msg list"

text \<open>
  The three files. \<open>None\<close> is a file that does not exist. \<open>domain_ips.json\<close> either
  parses to a JSON object (the program writes nothing else) or does not parse.
\<close>

datatype ips_json = Unparseable | Object "hostname \<rightharpoonup> ip"

record files =
  hosts_filename :: "string option"
  domain_ips_file :: "ips_json option"
  last_ip_file :: "string option"

text \<open>
  What one run of the process is given from outside: the environment variable
  \<open>FORCE_UPDATE\<close>; the orders in which \<open>current_domains\<close>, \<open>created_domains\<close> and
  \<open>deleted_domains\<close> are iterated, each by an ascending hash of its own (every order of
  a finite set is the order of some hash, and the three orders need not agree); the
  depth of the call stack (\<open>sys.getrecursionlimit()\<close>); and the network, which answers
  a request knowing all requests sent before it.
\<close>

record process =
  FORCE_UPDATE :: "string option"
  hash_current :: "hostname \<Rightarrow> nat"
  hash_created :: "hostname \<Rightarrow> nat"
  hash_deleted :: "hostname \<Rightarrow> nat"
  recursion_limit :: nat
  network :: "request list \<Rightarrow> response"

text \<open>The result of \<open>main\<close>: what it returned or raised, its effects, the files after it.\<close>

record outcome =
  returned :: "exn + int"
  effects :: io
  files_after :: files

section \<open>Strings and files\<close>

text \<open>
  \<open>str.isspace\<close> on one character: the code points below 256 that Python counts as
  whitespace, among them U+0085 and U+00A0.
\<close>

definition is_space :: "char \<Rightarrow> bool" where
  "is_space c = (c \<in> {CHR 0x09, CHR 0x0A, CHR 0x0B, CHR 0x0C, CHR 0x0D,
                       CHR 0x1C, CHR 0x1D, CHR 0x1E, CHR 0x1F, CHR 0x20,
                       CHR 0x85, CHR 0xA0})"

text \<open>\<open>str.strip()\<close>: leading and trailing whitespace removed.\<close>

definition strip :: "string \<Rightarrow> string" where
  "strip s = rev (dropWhile is_space (rev (dropWhile is_space s)))"

text \<open>
  \<open>str.lower()\<close>: the upper-case letters below 256 are A to Z and U+00C0 to U+00DE
  without the multiplication sign U+00D7; each has its lower-case letter 32 further on.
\<close>

definition lower_char :: "char \<Rightarrow> char" where
  "lower_char c =
     (let n = (of_char c :: nat)
      in if (65 \<le> n \<and> n \<le> 90) \<or> (192 \<le> n \<and> n \<le> 222 \<and> n \<noteq> 215) then char_of (n + 32)
         else c)"

definition lower :: "string \<Rightarrow> string" where
  "lower s = map lower_char s"

text \<open>\<open>str.endswith(suffix)\<close>.\<close>

definition endswith :: "string \<Rightarrow> string \<Rightarrow> bool" where
  "endswith s suf = (length suf \<le> length s \<and> drop (length s - length suf) s = suf)"

text \<open>
  Reading a file opened in text mode: \<open>\r\n\<close> and \<open>\r\<close> arrive as \<open>\n\<close>
  (universal newlines).
\<close>

fun universal_newlines :: "string \<Rightarrow> string" where
  "universal_newlines [] = []"
| "universal_newlines [c] = [if c = CHR 0x0D then CHR 0x0A else c]"
| "universal_newlines (c # d # cs) =
     (if c = CHR 0x0D \<and> d = CHR 0x0A then CHR 0x0A # universal_newlines cs
      else if c = CHR 0x0D then CHR 0x0A # universal_newlines (d # cs)
      else c # universal_newlines (d # cs))"

text \<open>
  \<open>for line in f\<close>: the text cut after each \<open>\n\<close>. The line ends are left out here, and
  an empty last line is kept; both vanish in \<open>line.strip()\<close> and \<open>if line.strip()\<close>.
\<close>

fun split_lines :: "string \<Rightarrow> string list" where
  "split_lines [] = [[]]"
| "split_lines (c # cs) =
     (if c = CHR 0x0A then [] # split_lines cs
      else (case split_lines cs of [] \<Rightarrow> [[c]] | l # ls \<Rightarrow> (c # l) # ls))"

text \<open>
  Iterating over a set, given as a duplicate-free list, in the order of the given hash.
  A set that is not changed is iterated in the same order every time.
\<close>

definition iterate :: "(hostname \<Rightarrow> nat) \<Rightarrow> hostname list \<Rightarrow> hostname list" where
  "iterate hash xs = sort_key hash xs"

definition print :: "msg \<Rightarrow> io \<Rightarrow> io" where
  "print m s = s\<lparr>out := out s @ [m]\<rparr>"

text \<open>Nothing sent, nothing printed: the start of a run.\<close>

definition start :: io where
  "start = \<lparr>reqs = [], out = []\<rparr>"

section \<open>HTTP\<close>

text \<open>
  One call of the \<open>requests\<close> library: the request is sent and recorded; the call
  raises or returns the response (status code, body).
\<close>

definition requests :: "process \<Rightarrow> request \<Rightarrow> io \<Rightarrow> (exn + nat \<times> payload) \<times> io" where
  "requests p r s =
     (let s' = s\<lparr>reqs := reqs s @ [r]\<rparr> in
      case network p (reqs s') of
        No_Response \<Rightarrow> (Inl RequestException, s')
      | Http code body \<Rightarrow> (Inr (code, body), s'))"

text \<open>\<open>response.raise_for_status()\<close>: \<open>HTTPError\<close> for a 4xx or 5xx status.\<close>

definition raise_for_status :: "nat \<times> payload \<Rightarrow> exn option" where
  "raise_for_status response =
     (if 400 \<le> fst response \<and> fst response < 600 then Some (HTTPError (fst response)) else None)"

text \<open>\<open>response.json()\<close>.\<close>

definition json :: "nat \<times> payload \<Rightarrow> exn + payload" where
  "json response = (case snd response of Not_Json \<Rightarrow> Inl JSONDecodeError | body \<Rightarrow> Inr body)"

section \<open>The functions of autodnsip.py\<close>

text \<open>
  A function that can raise returns \<open>Inl\<close> of the exception, or \<open>Some\<close> of it when it
  has no value to return. Every function takes the effects so far and returns them
  extended.
\<close>

definition get_npm_token :: "config \<Rightarrow> process \<Rightarrow> io \<Rightarrow> (exn + string) \<times> io" where
  "get_npm_token cfg p s =
     (case requests p (POST_tokens (NPM_API_URL cfg) (NPM_API_USER cfg) (NPM_API_PASS cfg)) s of
        (Inl e, s1) \<Rightarrow> (Inl e, s1)
      | (Inr response, s1) \<Rightarrow>
          (case raise_for_status response of
             Some e \<Rightarrow> (Inl e, s1)
           | None \<Rightarrow>
               (case json response of
                  Inl e \<Rightarrow> (Inl e, s1)
                | Inr (Json_Token token) \<Rightarrow> (Inr token, s1)
                | Inr (Json_Hosts hs) \<Rightarrow> (Inl TypeError, s1)
                | Inr other \<Rightarrow> (Inl KeyError, s1))))"

definition get_proxy_hosts :: "config \<Rightarrow> process \<Rightarrow> string \<Rightarrow> io \<Rightarrow> (exn + payload) \<times> io" where
  "get_proxy_hosts cfg p token s =
     (case requests p (GET_proxy_hosts (NPM_API_URL cfg) token) s of
        (Inl e, s1) \<Rightarrow> (Inl e, s1)
      | (Inr response, s1) \<Rightarrow>
          (case raise_for_status response of
             Some e \<Rightarrow> (Inl e, s1)
           | None \<Rightarrow> (json response, s1)))"

text \<open>
  \<open>update_host_file\<close>: one line per host, in the set's iteration order. The file is
  replaced.
\<close>

definition update_host_file :: "process \<Rightarrow> hostname list \<Rightarrow> files \<Rightarrow> files" where
  "update_host_file p current_hosts fs =
     fs\<lparr>hosts_filename := Some (concat (map (\<lambda>host. host @ [CHR 0x0A]) (iterate (hash_current p) current_hosts)))\<rparr>"

text \<open>\<open>get_public_ip\<close> catches every exception, prints it and returns \<open>None\<close>.\<close>

definition get_public_ip :: "process \<Rightarrow> io \<Rightarrow> ip option \<times> io" where
  "get_public_ip p s =
     (case requests p GET_ipify s of
        (Inl e, s1) \<Rightarrow> (None, print (Error_retrieving_public_IP e) s1)
      | (Inr response, s1) \<Rightarrow>
          (case raise_for_status response of
             Some e \<Rightarrow> (None, print (Error_retrieving_public_IP e) s1)
           | None \<Rightarrow>
               (case json response of
                  Inl e \<Rightarrow> (None, print (Error_retrieving_public_IP e) s1)
                | Inr (Json_Ip a) \<Rightarrow> (Some a, s1)
                | Inr (Json_Hosts hs) \<Rightarrow> (None, print (Error_retrieving_public_IP TypeError) s1)
                | Inr other \<Rightarrow> (None, print (Error_retrieving_public_IP KeyError) s1))))"

text \<open>
  The loop of \<open>get_cf_config_for_domain\<close> over the items of \<open>CLOUDFLARE_CONFIG\<close>: the
  first root that the domain ends with decides.
\<close>

fun first_root :: "(string \<times> cf_config) list \<Rightarrow> hostname \<Rightarrow> cf_config option" where
  "first_root [] domain = None"
| "first_root ((root, cf) # rest) domain =
     (if endswith domain root then Some cf else first_root rest domain)"

definition get_cf_config_for_domain :: "config \<Rightarrow> hostname \<Rightarrow> io \<Rightarrow> cf_config option \<times> io" where
  "get_cf_config_for_domain cfg domain s =
     (case first_root (CLOUDFLARE_CONFIG cfg) domain of
        Some cf \<Rightarrow> (Some cf, s)
      | None \<Rightarrow> (None, print (Skipping_domain domain) s))"

text \<open>
  The lookup that \<open>check_cloudflare_record_exists\<close>, \<open>update_cloudflare_a_record\<close> and
  \<open>delete_cloudflare_a_record\<close> each start with (lines 71-76, 109-114, 143-148):
  GET with \<open>type=A\<close> and \<open>name=domain\<close>, \<open>raise_for_status\<close>, then
  \<open>response.json().get('result', [])\<close>. \<open>records_of\<close> is that reading of a response.
\<close>

definition records_of :: "exn + nat \<times> payload \<Rightarrow> exn + dns_record list" where
  "records_of r =
     (case r of
        Inl e \<Rightarrow> Inl e
      | Inr response \<Rightarrow>
          (case raise_for_status response of
             Some e \<Rightarrow> Inl e
           | None \<Rightarrow>
               (case json response of
                  Inl e \<Rightarrow> Inl e
                | Inr (Json_Result results) \<Rightarrow> Inr results
                | Inr (Json_Hosts hs) \<Rightarrow> Inl AttributeError
                | Inr other \<Rightarrow> Inr [])))"

definition get_dns_records :: "process \<Rightarrow> hostname \<Rightarrow> cf_config \<Rightarrow> io \<Rightarrow> (exn + dns_record list) \<times> io" where
  "get_dns_records p domain cf s =
     (case requests p (GET_dns_records cf domain) s of (r, s1) \<Rightarrow> (records_of r, s1))"

definition check_cloudflare_record_exists :: "process \<Rightarrow> hostname \<Rightarrow> cf_config \<Rightarrow> io \<Rightarrow> (exn + bool) \<times> io" where
  "check_cloudflare_record_exists p domain cf s =
     (case get_dns_records p domain cf s of
        (Inl e, s1) \<Rightarrow> (Inl e, s1)
      | (Inr results, s1) \<Rightarrow> (Inr (length results > 0), s1))"

text \<open>The document of lines 91-97 and 123-129.\<close>

definition a_record_data :: "hostname \<Rightarrow> ip \<Rightarrow> a_record" where
  "a_record_data domain a =
     \<lparr>rr_type = ''A'', rr_name = domain, rr_content = a, rr_ttl = 3600, rr_proxied = True\<rparr>"

text \<open>
  The \<open>for record in results\<close> loop of \<open>update_cloudflare_a_record\<close> (lines 119-139).
  \<open>requests.put\<close> stands outside the \<open>try\<close>; the handler catches \<open>HTTPError\<close> only and
  reads \<open>update_response.json()\<close>, which can raise in its turn.
\<close>

fun update_each_record :: "process \<Rightarrow> hostname \<Rightarrow> ip \<Rightarrow> cf_config \<Rightarrow> dns_record list \<Rightarrow> io \<Rightarrow> exn option \<times> io" where
  "update_each_record p domain new_ip cf [] s = (None, s)"
| "update_each_record p domain new_ip cf (record # results) s =
     (if rec_content record \<noteq> Some new_ip then
        (case requests p (PUT_dns_record cf (rec_id record) (a_record_data domain new_ip)) s of
           (Inl e, s1) \<Rightarrow> (Some e, s1)
         | (Inr update_response, s1) \<Rightarrow>
             (case raise_for_status update_response of
                None \<Rightarrow> update_each_record p domain new_ip cf results (print (A_record_updated domain new_ip) s1)
              | Some (HTTPError code) \<Rightarrow>
                  (case json update_response of
                     Inl e \<Rightarrow> (Some e, s1)
                   | Inr error_detail \<Rightarrow>
                       update_each_record p domain new_ip cf results
                         (print Details (print (Error_updating_A_record domain code) s1)))
              | Some e \<Rightarrow> (Some e, s1)))
      else update_each_record p domain new_ip cf results (print (A_record_already_correct domain new_ip) s))"

text \<open>
  \<open>create_cloudflare_a_record\<close> and \<open>update_cloudflare_a_record\<close> call each other. The
  first argument is the depth left on the call stack: Python raises \<open>RecursionError\<close>
  when it is used up, so both functions return on every input.
\<close>

fun create_cloudflare_a_record :: "nat \<Rightarrow> process \<Rightarrow> hostname \<Rightarrow> ip \<Rightarrow> cf_config \<Rightarrow> io \<Rightarrow> exn option \<times> io"
  and update_cloudflare_a_record :: "nat \<Rightarrow> process \<Rightarrow> hostname \<Rightarrow> ip \<Rightarrow> cf_config \<Rightarrow> io \<Rightarrow> exn option \<times> io"
where
  "create_cloudflare_a_record 0 p domain a cf s = (Some RecursionError, s)"
| "create_cloudflare_a_record (Suc depth) p domain a cf s =
     (case check_cloudflare_record_exists p domain cf s of
        (Inl e, s1) \<Rightarrow> (Some e, s1)
      | (Inr True, s1) \<Rightarrow>
          update_cloudflare_a_record depth p domain a cf (print (A_record_already_exists domain) s1)
      | (Inr False, s1) \<Rightarrow>
          (case requests p (POST_dns_records cf (a_record_data domain a)) s1 of
             (Inl e, s2) \<Rightarrow> (Some e, s2)
           | (Inr response, s2) \<Rightarrow>
               (case raise_for_status response of
                  None \<Rightarrow> (None, print (A_record_created domain a) s2)
                | Some (HTTPError code) \<Rightarrow>
                    (case json response of
                       Inl e \<Rightarrow> (Some e, s2)
                     | Inr error_detail \<Rightarrow>
                         (None, print Details (print (Error_creating_A_record domain code) s2)))
                | Some e \<Rightarrow> (Some e, s2))))"
| "update_cloudflare_a_record 0 p domain new_ip cf s = (Some RecursionError, s)"
| "update_cloudflare_a_record (Suc depth) p domain new_ip cf s =
     (case get_dns_records p domain cf s of
        (Inl e, s1) \<Rightarrow> (Some e, s1)
      | (Inr results, s1) \<Rightarrow>
          (if results = [] then
             create_cloudflare_a_record depth p domain new_ip cf
               (print (No_A_record_found_to_update domain) s1)
           else update_each_record p domain new_ip cf results s1))"

text \<open>The \<open>for record in results\<close> loop of \<open>delete_cloudflare_a_record\<close> (lines 152-162).\<close>

fun delete_each_record :: "process \<Rightarrow> hostname \<Rightarrow> cf_config \<Rightarrow> dns_record list \<Rightarrow> io \<Rightarrow> exn option \<times> io" where
  "delete_each_record p domain cf [] s = (None, s)"
| "delete_each_record p domain cf (record # results) s =
     (case requests p (DELETE_dns_record cf (rec_id record)) s of
        (Inl e, s1) \<Rightarrow> (Some e, s1)
      | (Inr del_response, s1) \<Rightarrow>
          (case raise_for_status del_response of
             None \<Rightarrow> delete_each_record p domain cf results (print (A_record_deleted domain) s1)
           | Some (HTTPError code) \<Rightarrow>
               (case json del_response of
                  Inl e \<Rightarrow> (Some e, s1)
                | Inr error_detail \<Rightarrow>
                    delete_each_record p domain cf results
                      (print Details (print (Error_deleting_A_record domain code) s1)))
           | Some e \<Rightarrow> (Some e, s1)))"

definition delete_cloudflare_a_record :: "process \<Rightarrow> hostname \<Rightarrow> cf_config \<Rightarrow> io \<Rightarrow> exn option \<times> io" where
  "delete_cloudflare_a_record p domain cf s =
     (case get_dns_records p domain cf s of
        (Inl e, s1) \<Rightarrow> (Some e, s1)
      | (Inr results, s1) \<Rightarrow>
          (if results = [] then (None, print (No_A_record_found domain) s1)
           else delete_each_record p domain cf results s1))"

section \<open>main\<close>

text \<open>
  Lines 173-175: the token, the proxy hosts, and the set comprehension
  \<open>{domain for host in proxy_hosts for domain in host['domain_names']}\<close>, which raises
  on a document that is not a list of hosts. None of the three is inside a \<open>try\<close>.
\<close>

definition domain_names :: "payload \<Rightarrow> exn + hostname list" where
  "domain_names proxy_hosts =
     (case proxy_hosts of
        Json_Hosts hs \<Rightarrow> Inr (remdups (concat hs))
      | Not_Json \<Rightarrow> Inl JSONDecodeError
      | other \<Rightarrow> Inl TypeError)"

definition inventory :: "config \<Rightarrow> process \<Rightarrow> io \<Rightarrow> (exn + hostname list) \<times> io" where
  "inventory cfg p s =
     (case get_npm_token cfg p s of
        (Inl e, s1) \<Rightarrow> (Inl e, s1)
      | (Inr token, s1) \<Rightarrow>
          (case get_proxy_hosts cfg p token s1 of
             (Inl e, s2) \<Rightarrow> (Inl e, s2)
           | (Inr proxy_hosts, s2) \<Rightarrow> (domain_names proxy_hosts, s2)))"

text \<open>Lines 167-170: \<open>None\<close> without the file, else its stripped text.\<close>

definition last_known_ip :: "files \<Rightarrow> string option" where
  "last_known_ip fs = map_option (\<lambda>t. strip (universal_newlines t)) (last_ip_file fs)"

text \<open>Lines 178-182: \<open>{line.strip() for line in f if line.strip()}\<close>, or the empty set.\<close>

definition previous_domains :: "files \<Rightarrow> hostname list" where
  "previous_domains fs =
     (case hosts_filename fs of
        Some t \<Rightarrow> remdups (filter (\<lambda>l. l \<noteq> []) (map strip (split_lines (universal_newlines t))))
      | None \<Rightarrow> [])"

text \<open>Line 190.\<close>

definition force_update :: "process \<Rightarrow> bool" where
  "force_update p =
     (lower (case FORCE_UPDATE p of None \<Rightarrow> [] | Some v \<Rightarrow> v) \<in> {''true'', ''1'', ''yes''})"

text \<open>Lines 201-213.\<close>

definition log_status :: "process \<Rightarrow> hostname list \<Rightarrow> hostname list \<Rightarrow> string option \<Rightarrow> ip \<Rightarrow> io \<Rightarrow> io" where
  "log_status p created_domains deleted_domains last_ip current_public_ip s =
     (let domains_changed = (length created_domains > 0 \<or> length deleted_domains > 0);
          s1 = (if domains_changed then
                  (let a = print (Domain_changes_detected (length created_domains) (length deleted_domains)) s;
                       b = (if created_domains \<noteq> [] then print (New_domains (iterate (hash_created p) created_domains)) a else a)
                   in if deleted_domains \<noteq> [] then print (Removed_domains (iterate (hash_deleted p) deleted_domains)) b else b)
                else s)
      in if last_ip \<noteq> Some current_public_ip then
           (case last_ip of
              None \<Rightarrow> print (Initial_IP_detection current_public_ip) s1
            | Some l \<Rightarrow>
                if l \<noteq> [] then print (IP_change_detected l current_public_ip) s1
                else print (Initial_IP_detection current_public_ip) s1)
         else s1)"

text \<open>Lines 220-225: a missing or unparseable file gives the empty dict.\<close>

definition load_stored_ips :: "files \<Rightarrow> (hostname \<rightharpoonup> ip)" where
  "load_stored_ips fs =
     (case domain_ips_file fs of
        Some (Object stored_ips) \<Rightarrow> stored_ips
      | other \<Rightarrow> Map.empty)"

text \<open>The body of the loop over \<open>current_domains\<close> (lines 229-253).\<close>

definition process_current_domain ::
  "config \<Rightarrow> process \<Rightarrow> hostname list \<Rightarrow> bool \<Rightarrow> bool \<Rightarrow> ip \<Rightarrow> hostname
     \<Rightarrow> (hostname \<rightharpoonup> ip) \<times> io \<Rightarrow> (hostname \<rightharpoonup> ip) \<times> io" where
  "process_current_domain cfg p created_domains ip_changed forced current_public_ip domain st =
     (case st of (stored_ips, s) \<Rightarrow>
        (case get_cf_config_for_domain cfg domain s of
           (None, s1) \<Rightarrow> (stored_ips, s1)
         | (Some cf, s1) \<Rightarrow>
             if domain \<in> set created_domains \<or> stored_ips domain = None then
               (case create_cloudflare_a_record (recursion_limit p) p domain current_public_ip cf
                       (print (New_domain_detected domain current_public_ip) s1) of
                  (None, s2) \<Rightarrow> (stored_ips(domain \<mapsto> current_public_ip), s2)
                | (Some e, s2) \<Rightarrow> (stored_ips, print (Error_processing_creation domain e) s2))
             else if ip_changed \<or> forced then
               (case update_cloudflare_a_record (recursion_limit p) p domain current_public_ip cf
                       (print (if ip_changed then Updating_domain domain current_public_ip
                               else Forced_update domain current_public_ip) s1) of
                  (None, s2) \<Rightarrow> (stored_ips(domain \<mapsto> current_public_ip), s2)
                | (Some e, s2) \<Rightarrow> (stored_ips, print (Error_updating_domain domain e) s2))
             else (stored_ips, print (No_changes_needed domain) s1)))"

text \<open>The body of the loop over \<open>deleted_domains\<close> (lines 257-266).\<close>

definition process_deleted_domain ::
  "config \<Rightarrow> process \<Rightarrow> hostname \<Rightarrow> (hostname \<rightharpoonup> ip) \<times> io \<Rightarrow> (hostname \<rightharpoonup> ip) \<times> io" where
  "process_deleted_domain cfg p domain st =
     (case st of (stored_ips, s) \<Rightarrow>
        (case get_cf_config_for_domain cfg domain s of
           (None, s1) \<Rightarrow> (stored_ips, s1)
         | (Some cf, s1) \<Rightarrow>
             (case delete_cloudflare_a_record p domain cf (print (Deleting_DNS_record domain) s1) of
                (None, s2) \<Rightarrow> (stored_ips(domain := None), s2)
              | (Some e, s2) \<Rightarrow> (stored_ips(domain := None), print (Error_processing_deletion domain e) s2))))"

text \<open>Lines 220-279: what \<open>main\<close> does once it has decided not to stop early.\<close>

definition reconcile ::
  "config \<Rightarrow> process \<Rightarrow> files \<Rightarrow> hostname list \<Rightarrow> hostname list \<Rightarrow> hostname list \<Rightarrow> bool \<Rightarrow> bool
     \<Rightarrow> ip \<Rightarrow> io \<Rightarrow> outcome" where
  "reconcile cfg p fs current_domains created_domains deleted_domains ip_changed forced current_public_ip s =
     (case fold (process_current_domain cfg p created_domains ip_changed forced current_public_ip)
             (iterate (hash_current p) current_domains) (load_stored_ips fs, s) of
        (stored1, s1) \<Rightarrow>
          (case fold (process_deleted_domain cfg p) (iterate (hash_deleted p) deleted_domains) (stored1, s1) of
             (stored2, s2) \<Rightarrow>
               \<lparr>returned = Inr 0, effects = s2,
                files_after =
                  (update_host_file p current_domains (fs\<lparr>domain_ips_file := Some (Object stored2)\<rparr>))
                    \<lparr>last_ip_file := Some current_public_ip\<rparr>\<rparr>))"

definition main :: "config \<Rightarrow> process \<Rightarrow> files \<Rightarrow> outcome" where
  "main cfg p fs =
     (let last_ip = last_known_ip fs in
      case inventory cfg p start of
        (Inl e, s2) \<Rightarrow> \<lparr>returned = Inl e, effects = s2, files_after = fs\<rparr>
      | (Inr current_domains, s2) \<Rightarrow>
          (let previous = previous_domains fs;
               created_domains = filter (\<lambda>d. d \<notin> set previous) current_domains;
               deleted_domains = filter (\<lambda>d. d \<notin> set current_domains) previous;
               domains_changed = (length created_domains > 0 \<or> length deleted_domains > 0);
               forced = force_update p
           in case get_public_ip p s2 of
                (None, s3) \<Rightarrow>
                  \<lparr>returned = Inr 1, effects = print Could_not_retrieve_public_IP s3, files_after = fs\<rparr>
              | (Some current_public_ip, s3) \<Rightarrow>
                  if current_public_ip = [] then
                    \<lparr>returned = Inr 1, effects = print Could_not_retrieve_public_IP s3, files_after = fs\<rparr>
                  else
                    (let ip_changed = (last_ip \<noteq> Some current_public_ip);
                         s4 = log_status p created_domains deleted_domains last_ip current_public_ip s3
                     in if \<not> domains_changed \<and> \<not> ip_changed \<and> \<not> forced then
                          \<lparr>returned = Inr 0, effects = print No_changes_detected s4, files_after = fs\<rparr>
                        else reconcile cfg p fs current_domains created_domains deleted_domains
                               ip_changed forced current_public_ip s4)))"

text \<open>
  \<open>exit(main())\<close>: the status of the process is the value returned, and 1 when \<open>main\<close>
  ends with an exception that nothing caught.
\<close>

definition exit_status :: "outcome \<Rightarrow> int" where
  "exit_status r = (case returned r of Inl e \<Rightarrow> 1 | Inr n \<Rightarrow> n mod 256)"

text \<open>The requests that go to the DNS provider.\<close>

fun is_dns_request :: "request \<Rightarrow> bool" where
  "is_dns_request (GET_dns_records cf domain) = True"
| "is_dns_request (POST_dns_records cf d) = True"
| "is_dns_request (PUT_dns_record cf i d) = True"
| "is_dns_request (DELETE_dns_record cf i) = True"
| "is_dns_request other = False"

section \<open>Auxiliary notions\<close>

text \<open>
  Effects only accumulate: \<open>grows s s'\<close> says that \<open>s'\<close> continues \<open>s\<close>, with the same
  requests and lines first.
\<close>

definition grows :: "io \<Rightarrow> io \<Rightarrow> bool" where
  "grows s s' = (prefix (reqs s) (reqs s') \<and> prefix (out s) (out s'))"

text \<open>
  A response that ends no loop over records: the call of \<open>requests\<close> returned, and if
  the status is an error the body is JSON, so that the handler can print it.
\<close>

definition answered :: "response \<Rightarrow> bool" where
  "answered r =
     (case r of
        No_Response \<Rightarrow> False
      | Http code body \<Rightarrow> \<not> (400 \<le> code \<and> code < 600 \<and> body = Not_Json))"

text \<open>Sample data for the concrete runs below.\<close>

definition zone_a :: cf_config where
  "zone_a = \<lparr>ZONE_ID = ''zone-a'', API_TOKEN = ''token-a''\<rparr>"

definition zone_b :: cf_config where
  "zone_b = \<lparr>ZONE_ID = ''zone-b'', API_TOKEN = ''token-b''\<rparr>"

definition two_roots :: config where
  "two_roots =
     \<lparr>NPM_API_URL = ''http://npm:81'', NPM_API_USER = ''admin'', NPM_API_PASS = ''changeme'',
      CLOUDFLARE_CONFIG = [(''example.com'', zone_a), (''com'', zone_b)]\<rparr>"

definition example_config :: config where
  "example_config =
     \<lparr>NPM_API_URL = ''http://npm:81'', NPM_API_USER = ''admin'', NPM_API_PASS = ''changeme'',
      CLOUDFLARE_CONFIG = [(''example.com'', zone_a)]\<rparr>"

text \<open>
  A network in which NPM hands out a token and lists the given hosts, ipify answers as
  given, and the DNS provider answers by the given function of the request.
\<close>

fun answer_to :: "hostname list list \<Rightarrow> response \<Rightarrow> (request \<Rightarrow> response) \<Rightarrow> request \<Rightarrow> response" where
  "answer_to hosts ipify dns (POST_tokens url u pw) = Http 200 (Json_Token ''jwt'')"
| "answer_to hosts ipify dns (GET_proxy_hosts url token) = Http 200 (Json_Hosts hosts)"
| "answer_to hosts ipify dns GET_ipify = ipify"
| "answer_to hosts ipify dns (GET_dns_records cf d) = dns (GET_dns_records cf d)"
| "answer_to hosts ipify dns (POST_dns_records cf d) = dns (POST_dns_records cf d)"
| "answer_to hosts ipify dns (PUT_dns_record cf i d) = dns (PUT_dns_record cf i d)"
| "answer_to hosts ipify dns (DELETE_dns_record cf i) = dns (DELETE_dns_record cf i)"

definition online :: "hostname list list \<Rightarrow> response \<Rightarrow> (request \<Rightarrow> response) \<Rightarrow> process" where
  "online hosts ipify dns =
     \<lparr>FORCE_UPDATE = None, hash_current = length, hash_created = length, hash_deleted = length, recursion_limit = 1000,
      network = (\<lambda>history. if history = [] then No_Response else answer_to hosts ipify dns (last history))\<rparr>"

text \<open>
  A DNS provider that answers every lookup with the given records and every write with
  the given status and a JSON body.
\<close>

fun dns_holding :: "dns_record list \<Rightarrow> nat \<Rightarrow> request \<Rightarrow> response" where
  "dns_holding records status (GET_dns_records cf d) = Http 200 (Json_Result records)"
| "dns_holding records status r = Http status Json_Other"

text \<open>A network in which NPM refuses the login (401) while ipify works.\<close>

fun login_refused :: "ip \<Rightarrow> request \<Rightarrow> response" where
  "login_refused a GET_ipify = Http 200 (Json_Ip a)"
| "login_refused a r = Http 401 Json_Other"

definition no_login :: "ip \<Rightarrow> process" where
  "no_login a =
     \<lparr>FORCE_UPDATE = None, hash_current = length, hash_created = length, hash_deleted = length, recursion_limit = 1000,
      network = (\<lambda>history. if history = [] then No_Response else login_refused a (last history))\<rparr>"

definition no_files :: files where
  "no_files = \<lparr>hosts_filename = None, domain_ips_file = None, last_ip_file = None\<rparr>"

text \<open>The three files as the program leaves them.\<close>

definition files_holding :: "hostname list \<Rightarrow> (hostname \<rightharpoonup> ip) \<Rightarrow> ip \<Rightarrow> files" where
  "files_holding hosts stored_ips a =
     \<lparr>hosts_filename = Some (concat (map (\<lambda>host. host @ [CHR 0x0A]) hosts)),
      domain_ips_file = Some (Object stored_ips), last_ip_file = Some a\<rparr>"

section \<open>Effects only accumulate\<close>

lemma grows_refl [simp]: "grows s s"
  by (simp add: grows_def)

lemma grows_trans: "grows a b \<Longrightarrow> grows b c \<Longrightarrow> grows a c"
  by (auto simp: grows_def)

lemma grows_print [simp]: "grows s0 s \<Longrightarrow> grows s0 (print m s)"
  by (auto simp: grows_def print_def)

lemma requests_effects:
  "requests p r s = (x, s') \<Longrightarrow> reqs s' = reqs s @ [r] \<and> out s' = out s"
  by (auto simp: requests_def Let_def split: response.splits)

lemma grows_requests: "requests p r s = (x, s') \<Longrightarrow> grows s0 s \<Longrightarrow> grows s0 s'"
  by (auto simp: grows_def dest!: requests_effects)

lemma get_dns_records_effects:
  "get_dns_records p domain cf s = (x, s') \<Longrightarrow> reqs s' = reqs s @ [GET_dns_records cf domain] \<and> out s' = out s"
  by (auto simp: get_dns_records_def split: prod.splits dest: requests_effects)

lemma grows_get_dns_records: "get_dns_records p domain cf s = (x, s') \<Longrightarrow> grows s0 s \<Longrightarrow> grows s0 s'"
  by (auto simp: grows_def dest!: get_dns_records_effects)

lemma grows_update_each_record:
  "update_each_record p domain a cf rs s = (x, s') \<Longrightarrow> grows s0 s \<Longrightarrow> grows s0 s'"
proof (induction rs arbitrary: s)
  case Nil
  then show ?case by simp
next
  case (Cons r rs)
  show ?case
  proof (cases "rec_content r \<noteq> Some a")
    case False
    with Cons.prems show ?thesis by (auto intro: Cons.IH)
  next
    case True
    obtain y s1 where 1: "requests p (PUT_dns_record cf (rec_id r) (a_record_data domain a)) s = (y, s1)"
      by (cases "requests p (PUT_dns_record cf (rec_id r) (a_record_data domain a)) s")
    have 2: "grows s0 s1" using 1 Cons.prems(2) by (rule grows_requests)
    from Cons.prems(1) True 1 2 show ?thesis
      by (auto split: sum.splits option.splits exn.splits intro: Cons.IH)
  qed
qed


lemma grows_check:
  "check_cloudflare_record_exists p domain cf s = (x, s') \<Longrightarrow> grows s0 s \<Longrightarrow> grows s0 s'"
  by (auto simp: check_cloudflare_record_exists_def split: prod.splits sum.splits
      intro: grows_get_dns_records)

lemma grows_create_update:
  "(create_cloudflare_a_record n p domain a cf s = (x, s') \<longrightarrow> grows s0 s \<longrightarrow> grows s0 s') \<and>
   (update_cloudflare_a_record n p domain a cf s = (x, s') \<longrightarrow> grows s0 s \<longrightarrow> grows s0 s')"
proof (induction n arbitrary: s)
  case 0
  then show ?case by simp
next
  case (Suc n)
  have c: "grows s0 s'"
    if h: "create_cloudflare_a_record (Suc n) p domain a cf s = (x, s')" and g: "grows s0 s"
  proof -
    obtain b s1 where 1: "check_cloudflare_record_exists p domain cf s = (b, s1)"
      by (cases "check_cloudflare_record_exists p domain cf s")
    have g1: "grows s0 s1" using 1 g by (rule grows_check)
    obtain y s2 where 2: "requests p (POST_dns_records cf (a_record_data domain a)) s1 = (y, s2)"
      by (cases "requests p (POST_dns_records cf (a_record_data domain a)) s1")
    have g2: "grows s0 s2" using 2 g1 by (rule grows_requests)
    have u: "update_cloudflare_a_record n p domain a cf t = (x, s') \<Longrightarrow> grows s0 t \<Longrightarrow> grows s0 s'" for t
      using Suc.IH by blast
    from h 1 2 g1 g2 show ?thesis
      by (auto split: sum.splits bool.splits option.splits exn.splits intro: u)
  qed
  have u: "grows s0 s'"
    if h: "update_cloudflare_a_record (Suc n) p domain a cf s = (x, s')" and g: "grows s0 s"
  proof -
    obtain rs s1 where 1: "get_dns_records p domain cf s = (rs, s1)"
      by (cases "get_dns_records p domain cf s")
    have g1: "grows s0 s1" using 1 g by (rule grows_get_dns_records)
    have c': "create_cloudflare_a_record n p domain a cf t = (x, s') \<Longrightarrow> grows s0 t \<Longrightarrow> grows s0 s'" for t
      using Suc.IH by blast
    from h 1 g1 show ?thesis
      by (auto split: sum.splits if_splits intro: c' grows_update_each_record)
  qed
  show ?case using c u by blast
qed

lemma grows_create:
  "create_cloudflare_a_record n p domain a cf s = (x, s') \<Longrightarrow> grows s0 s \<Longrightarrow> grows s0 s'"
  using grows_create_update by blast

lemma grows_update:
  "update_cloudflare_a_record n p domain a cf s = (x, s') \<Longrightarrow> grows s0 s \<Longrightarrow> grows s0 s'"
  using grows_create_update by blast

lemma grows_delete_each_record:
  "delete_each_record p domain cf rs s = (x, s') \<Longrightarrow> grows s0 s \<Longrightarrow> grows s0 s'"
proof (induction rs arbitrary: s)
  case Nil
  then show ?case by simp
next
  case (Cons r rs)
  obtain y s1 where 1: "requests p (DELETE_dns_record cf (rec_id r)) s = (y, s1)"
    by (cases "requests p (DELETE_dns_record cf (rec_id r)) s")
  have 2: "grows s0 s1" using 1 Cons.prems(2) by (rule grows_requests)
  from Cons.prems(1) 1 2 show ?case
    by (auto split: sum.splits option.splits exn.splits intro: Cons.IH)
qed

lemma grows_delete:
  "delete_cloudflare_a_record p domain cf s = (x, s') \<Longrightarrow> grows s0 s \<Longrightarrow> grows s0 s'"
proof -
  assume h: "delete_cloudflare_a_record p domain cf s = (x, s')" and g: "grows s0 s"
  obtain rs s1 where 1: "get_dns_records p domain cf s = (rs, s1)"
    by (cases "get_dns_records p domain cf s")
  have g1: "grows s0 s1" using 1 g by (rule grows_get_dns_records)
  from h 1 g1 show ?thesis
    by (auto simp: delete_cloudflare_a_record_def split: sum.splits if_splits
        intro: grows_delete_each_record)
qed

lemma grows_get_cf_config:
  "get_cf_config_for_domain cfg domain s = (x, s') \<Longrightarrow> grows s0 s \<Longrightarrow> grows s0 s'"
  by (auto simp: get_cf_config_for_domain_def split: option.splits)

lemma grows_process_current_domain:
  assumes h: "process_current_domain cfg p cr ch fo a domain (st, s) = (st', s')" and g: "grows s0 s"
  shows "grows s0 s'"
proof -
  obtain c s1 where 1: "get_cf_config_for_domain cfg domain s = (c, s1)"
    by (cases "get_cf_config_for_domain cfg domain s")
  have g1: "grows s0 s1" using 1 g by (rule grows_get_cf_config)
  show ?thesis
  proof (cases c)
    case None
    with h 1 g1 show ?thesis by (simp add: process_current_domain_def)
  next
    case (Some cf)
    let ?n = "recursion_limit p"
    show ?thesis
    proof (cases "domain \<in> set cr \<or> st domain = None")
      case True
      obtain y s2 where 2: "create_cloudflare_a_record ?n p domain a cf (print (New_domain_detected domain a) s1) = (y, s2)"
        by (cases "create_cloudflare_a_record ?n p domain a cf (print (New_domain_detected domain a) s1)")
      have "grows s0 s2" using 2 g1 by (auto intro: grows_create)
      with h 1 Some True 2 show ?thesis
        by (auto simp: process_current_domain_def split: option.splits)
    next
      case False
      let ?m = "if ch then Updating_domain domain a else Forced_update domain a"
      obtain y s2 where 2: "update_cloudflare_a_record ?n p domain a cf (print ?m s1) = (y, s2)"
        by (cases "update_cloudflare_a_record ?n p domain a cf (print ?m s1)")
      have "grows s0 s2" using 2 g1 by (auto intro: grows_update)
      with h 1 Some False 2 g1 show ?thesis
        by (auto simp: process_current_domain_def split: option.splits if_splits)
    qed
  qed
qed

lemma grows_process_deleted_domain:
  assumes h: "process_deleted_domain cfg p domain (st, s) = (st', s')" and g: "grows s0 s"
  shows "grows s0 s'"
proof -
  obtain c s1 where 1: "get_cf_config_for_domain cfg domain s = (c, s1)"
    by (cases "get_cf_config_for_domain cfg domain s")
  have g1: "grows s0 s1" using 1 g by (rule grows_get_cf_config)
  show ?thesis
  proof (cases c)
    case None
    with h 1 g1 show ?thesis by (simp add: process_deleted_domain_def)
  next
    case (Some cf)
    obtain y s2 where 2: "delete_cloudflare_a_record p domain cf (print (Deleting_DNS_record domain) s1) = (y, s2)"
      by (cases "delete_cloudflare_a_record p domain cf (print (Deleting_DNS_record domain) s1)")
    have "grows s0 s2" using 2 g1 by (auto intro: grows_delete)
    with h 1 Some 2 show ?thesis
      by (auto simp: process_deleted_domain_def split: option.splits)
  qed
qed

lemma grows_fold_current:
  "fold (process_current_domain cfg p cr ch fo a) xs (st, s) = (st', s') \<Longrightarrow> grows s0 s \<Longrightarrow> grows s0 s'"
proof (induction xs arbitrary: st s)
  case Nil
  then show ?case by simp
next
  case (Cons x xs)
  obtain st1 s1 where 1: "process_current_domain cfg p cr ch fo a x (st, s) = (st1, s1)"
    by (cases "process_current_domain cfg p cr ch fo a x (st, s)")
  have "grows s0 s1" using 1 Cons.prems(2) by (rule grows_process_current_domain)
  moreover from Cons.prems(1) 1 have "fold (process_current_domain cfg p cr ch fo a) xs (st1, s1) = (st', s')"
    by simp
  ultimately show ?case by (blast intro: Cons.IH)
qed

lemma grows_fold_deleted:
  "fold (process_deleted_domain cfg p) xs (st, s) = (st', s') \<Longrightarrow> grows s0 s \<Longrightarrow> grows s0 s'"
proof (induction xs arbitrary: st s)
  case Nil
  then show ?case by simp
next
  case (Cons x xs)
  obtain st1 s1 where 1: "process_deleted_domain cfg p x (st, s) = (st1, s1)"
    by (cases "process_deleted_domain cfg p x (st, s)")
  have "grows s0 s1" using 1 Cons.prems(2) by (rule grows_process_deleted_domain)
  moreover from Cons.prems(1) 1 have "fold (process_deleted_domain cfg p) xs (st1, s1) = (st', s')"
    by simp
  ultimately show ?case by (blast intro: Cons.IH)
qed

lemma grows_out: "grows s s' \<Longrightarrow> m \<in> set (out s) \<Longrightarrow> m \<in> set (out s')"
  by (auto simp: grows_def dest: set_mono_prefix)

lemma grows_reqs: "grows s s' \<Longrightarrow> r \<in> set (reqs s) \<Longrightarrow> r \<in> set (reqs s')"
  by (auto simp: grows_def dest: set_mono_prefix)

section \<open>The domain router\<close>

lemma endswith_iff: "endswith s x \<longleftrightarrow> (\<exists>pre. s = pre @ x)"
proof
  assume "endswith s x"
  then have "take (length s - length x) s @ x = s"
    by (metis append_take_drop_id endswith_def)
  then show "\<exists>pre. s = pre @ x" by metis
next
  assume "\<exists>pre. s = pre @ x"
  then show "endswith s x" by (auto simp: endswith_def)
qed

lemma first_root_None:
  "first_root conf d = None \<longleftrightarrow> (\<forall>root \<in> fst ` set conf. \<not> endswith d root)"
  by (induction conf d rule: first_root.induct) auto

lemma first_root_Some:
  "first_root conf d = Some cf \<longleftrightarrow>
     (\<exists>i < length conf. endswith d (fst (conf ! i)) \<and> snd (conf ! i) = cf \<and>
        (\<forall>j < i. \<not> endswith d (fst (conf ! j))))"
proof (induction conf d rule: first_root.induct)
  case (1 d)
  then show ?case by simp
next
  case (2 root c rest d)
  show ?case
  proof (cases "endswith d root")
    case True
    have "(\<exists>i < length ((root, c) # rest). endswith d (fst (((root, c) # rest) ! i)) \<and>
            snd (((root, c) # rest) ! i) = cf \<and>
            (\<forall>j < i. \<not> endswith d (fst (((root, c) # rest) ! j)))) \<longleftrightarrow> c = cf"
    proof
      assume "\<exists>i < length ((root, c) # rest). endswith d (fst (((root, c) # rest) ! i)) \<and>
            snd (((root, c) # rest) ! i) = cf \<and>
            (\<forall>j < i. \<not> endswith d (fst (((root, c) # rest) ! j)))"
      then obtain i where i: "snd (((root, c) # rest) ! i) = cf"
        "\<forall>j < i. \<not> endswith d (fst (((root, c) # rest) ! j))" by blast
      have "i = 0"
      proof (rule ccontr)
        assume "i \<noteq> 0"
        then have "0 < i" by simp
        with i(2) have "\<not> endswith d (fst (((root, c) # rest) ! 0))" by blast
        with True show False by simp
      qed
      with i(1) show "c = cf" by simp
    next
      assume "c = cf"
      with True show "\<exists>i < length ((root, c) # rest). endswith d (fst (((root, c) # rest) ! i)) \<and>
            snd (((root, c) # rest) ! i) = cf \<and>
            (\<forall>j < i. \<not> endswith d (fst (((root, c) # rest) ! j)))"
        by (intro exI[of _ 0]) simp
    qed
    with True show ?thesis by simp
  next
    case False
    have "(\<exists>i < length ((root, c) # rest). endswith d (fst (((root, c) # rest) ! i)) \<and>
            snd (((root, c) # rest) ! i) = cf \<and>
            (\<forall>j < i. \<not> endswith d (fst (((root, c) # rest) ! j)))) \<longleftrightarrow>
          (\<exists>i < length rest. endswith d (fst (rest ! i)) \<and> snd (rest ! i) = cf \<and>
            (\<forall>j < i. \<not> endswith d (fst (rest ! j))))" (is "?L \<longleftrightarrow> ?R")
    proof
      assume ?L
      then obtain i where i: "i < length ((root, c) # rest)"
        "endswith d (fst (((root, c) # rest) ! i))" "snd (((root, c) # rest) ! i) = cf"
        "\<forall>j < i. \<not> endswith d (fst (((root, c) # rest) ! j))" by blast
      from i(2) False have "i \<noteq> 0" by (cases i) auto
      then obtain k where k: "i = Suc k" by (cases i) auto
      have "\<forall>j < k. \<not> endswith d (fst (rest ! j))"
      proof (intro allI impI)
        fix j assume "j < k"
        then have "Suc j < i" using k by simp
        with i(4) have "\<not> endswith d (fst (((root, c) # rest) ! Suc j))" by blast
        then show "\<not> endswith d (fst (rest ! j))" by simp
      qed
      with i k show ?R by (intro exI[of _ k]) simp
    next
      assume ?R
      then obtain k where k: "k < length rest" "endswith d (fst (rest ! k))" "snd (rest ! k) = cf"
        "\<forall>j < k. \<not> endswith d (fst (rest ! j))" by blast
      have "\<forall>j < Suc k. \<not> endswith d (fst (((root, c) # rest) ! j))"
      proof (intro allI impI)
        fix j assume "j < Suc k"
        then show "\<not> endswith d (fst (((root, c) # rest) ! j))"
          using False k(4) by (cases j) auto
      qed
      with k show ?L by (intro exI[of _ "Suc k"]) simp
    qed
    with False 2 show ?thesis by simp
  qed
qed

lemma fst_get_cf_config: "fst (get_cf_config_for_domain cfg d s) = first_root (CLOUDFLARE_CONFIG cfg) d"
  by (simp add: get_cf_config_for_domain_def split: option.splits)

section \<open>The steps of main\<close>

lemma get_npm_token_effects:
  "get_npm_token cfg p s = (x, s') \<Longrightarrow>
     reqs s' = reqs s @ [POST_tokens (NPM_API_URL cfg) (NPM_API_USER cfg) (NPM_API_PASS cfg)] \<and> out s' = out s"
  by (auto simp: get_npm_token_def split: prod.splits sum.splits option.splits payload.splits
      dest: requests_effects)

lemma get_proxy_hosts_effects:
  "get_proxy_hosts cfg p token s = (x, s') \<Longrightarrow>
     reqs s' = reqs s @ [GET_proxy_hosts (NPM_API_URL cfg) token] \<and> out s' = out s"
  by (auto simp: get_proxy_hosts_def split: prod.splits sum.splits option.splits
      dest: requests_effects)

lemma inventory_effects:
  assumes "inventory cfg p s = (x, s')"
  shows "out s' = out s \<and> filter is_dns_request (reqs s') = filter is_dns_request (reqs s)"
proof -
  obtain y s1 where 1: "get_npm_token cfg p s = (y, s1)"
    by (cases "get_npm_token cfg p s")
  note e1 = get_npm_token_effects [OF 1]
  show ?thesis
  proof (cases y)
    case (Inl e)
    with assms 1 e1 show ?thesis by (simp add: inventory_def)
  next
    case (Inr token)
    obtain z s2 where 2: "get_proxy_hosts cfg p token s1 = (z, s2)"
      by (cases "get_proxy_hosts cfg p token s1")
    note e2 = get_proxy_hosts_effects [OF 2]
    from assms 1 Inr 2 have "s' = s2"
      by (auto simp: inventory_def split: sum.splits)
    with e1 e2 show ?thesis by simp
  qed
qed

lemma inventory_requests:
  assumes "inventory cfg p s = (Inr current_domains, s')"
  shows "\<exists>token. reqs s' = reqs s @
           [POST_tokens (NPM_API_URL cfg) (NPM_API_USER cfg) (NPM_API_PASS cfg),
            GET_proxy_hosts (NPM_API_URL cfg) token]"
proof -
  obtain y s1 where 1: "get_npm_token cfg p s = (y, s1)"
    by (cases "get_npm_token cfg p s")
  note e1 = get_npm_token_effects [OF 1]
  show ?thesis
  proof (cases y)
    case (Inl e)
    with assms 1 show ?thesis by (simp add: inventory_def)
  next
    case (Inr token)
    obtain z s2 where 2: "get_proxy_hosts cfg p token s1 = (z, s2)"
      by (cases "get_proxy_hosts cfg p token s1")
    note e2 = get_proxy_hosts_effects [OF 2]
    from assms 1 Inr 2 have "s' = s2"
      by (auto simp: inventory_def split: sum.splits)
    with e1 e2 show ?thesis by simp
  qed
qed

lemma get_public_ip_effects:
  "get_public_ip p s = (x, s') \<Longrightarrow> reqs s' = reqs s @ [GET_ipify]"
  by (auto simp: get_public_ip_def print_def split: prod.splits sum.splits option.splits payload.splits
      dest: requests_effects)

lemma reqs_print [simp]: "reqs (print m s) = reqs s"
  by (simp add: print_def)

lemma out_print [simp]: "out (print m s) = out s @ [m]"
  by (simp add: print_def)

lemma reqs_log_status [simp]: "reqs (log_status p cr de l a s) = reqs s"
  by (simp add: log_status_def Let_def split: option.splits)

lemma reqs_start [simp]: "reqs start = []"
  by (simp add: start_def)

lemma main_inventory_fails:
  "inventory cfg p start = (Inl e, s) \<Longrightarrow>
     main cfg p fs = \<lparr>returned = Inl e, effects = s, files_after = fs\<rparr>"
  by (simp add: main_def)

lemma main_ip_fails:
  "inventory cfg p start = (Inr cur, s) \<Longrightarrow> get_public_ip p s = (a, s') \<Longrightarrow> a = None \<or> a = Some [] \<Longrightarrow>
     main cfg p fs = \<lparr>returned = Inr 1, effects = print Could_not_retrieve_public_IP s', files_after = fs\<rparr>"
  by (auto simp: main_def Let_def)

lemma main_early_exit:
  "inventory cfg p start = (Inr cur, s) \<Longrightarrow> get_public_ip p s = (Some a, s') \<Longrightarrow> a \<noteq> [] \<Longrightarrow>
   set cur = set (previous_domains fs) \<Longrightarrow> last_known_ip fs = Some a \<Longrightarrow> \<not> force_update p \<Longrightarrow>
     main cfg p fs = \<lparr>returned = Inr 0,
        effects = print No_changes_detected (log_status p [] [] (Some a) a s'), files_after = fs\<rparr>"
  by (simp add: main_def Let_def)

lemma main_reconcile:
  "inventory cfg p start = (Inr cur, s) \<Longrightarrow> get_public_ip p s = (Some a, s') \<Longrightarrow> a \<noteq> [] \<Longrightarrow>
   set cur \<noteq> set (previous_domains fs) \<or> last_known_ip fs \<noteq> Some a \<or> force_update p \<Longrightarrow>
     main cfg p fs =
       reconcile cfg p fs cur (filter (\<lambda>d. d \<notin> set (previous_domains fs)) cur)
         (filter (\<lambda>d. d \<notin> set cur) (previous_domains fs))
         (last_known_ip fs \<noteq> Some a) (force_update p) a
         (log_status p (filter (\<lambda>d. d \<notin> set (previous_domains fs)) cur)
            (filter (\<lambda>d. d \<notin> set cur) (previous_domains fs)) (last_known_ip fs) a s')"
  by (auto simp: main_def Let_def filter_empty_conv)

lemma create_unfold:
  assumes "0 < n"
  shows "create_cloudflare_a_record n p domain a cf s =
     (case check_cloudflare_record_exists p domain cf s of
        (Inl e, s1) \<Rightarrow> (Some e, s1)
      | (Inr True, s1) \<Rightarrow>
          update_cloudflare_a_record (n - 1) p domain a cf (print (A_record_already_exists domain) s1)
      | (Inr False, s1) \<Rightarrow>
          (case requests p (POST_dns_records cf (a_record_data domain a)) s1 of
             (Inl e, s2) \<Rightarrow> (Some e, s2)
           | (Inr response, s2) \<Rightarrow>
               (case raise_for_status response of
                  None \<Rightarrow> (None, print (A_record_created domain a) s2)
                | Some (HTTPError code) \<Rightarrow>
                    (case json response of
                       Inl e \<Rightarrow> (Some e, s2)
                     | Inr error_detail \<Rightarrow>
                         (None, print Details (print (Error_creating_A_record domain code) s2)))
                | Some e \<Rightarrow> (Some e, s2))))"
proof (cases n)
  case 0
  with assms show ?thesis by simp
next
  case (Suc m)
  then have "n - 1 = m" by simp
  then show ?thesis unfolding Suc \<open>n - 1 = m\<close> diff_Suc_1 by simp
qed

lemma update_unfold:
  assumes "0 < n"
  shows "update_cloudflare_a_record n p domain new_ip cf s =
     (case get_dns_records p domain cf s of
        (Inl e, s1) \<Rightarrow> (Some e, s1)
      | (Inr results, s1) \<Rightarrow>
          (if results = [] then
             create_cloudflare_a_record (n - 1) p domain new_ip cf
               (print (No_A_record_found_to_update domain) s1)
           else update_each_record p domain new_ip cf results s1))"
proof (cases n)
  case 0
  with assms show ?thesis by simp
next
  case (Suc m)
  then have "n - 1 = m" by simp
  then show ?thesis unfolding Suc \<open>n - 1 = m\<close> diff_Suc_1 by simp
qed

lemmas run_defs = main_def inventory_def get_npm_token_def get_proxy_hosts_def domain_names_def
  get_public_ip_def requests_def raise_for_status_def json_def previous_domains_def last_known_ip_def
  force_update_def log_status_def load_stored_ips_def reconcile_def process_current_domain_def
  process_deleted_domain_def get_cf_config_for_domain_def endswith_def check_cloudflare_record_exists_def
  get_dns_records_def records_of_def delete_cloudflare_a_record_def update_host_file_def iterate_def
  print_def start_def a_record_data_def strip_def is_space_def lower_def lower_char_def
  example_config_def online_def no_files_def zone_a_def no_login_def files_holding_def


lemma returned_reconcile [simp]: "returned (reconcile cfg p fs cur cr de ch fo a s) = Inr 0"
  by (simp add: reconcile_def split: prod.splits)

section \<open>The two loops of main\<close>

lemma get_cf_config_Some:
  "first_root (CLOUDFLARE_CONFIG cfg) d = Some cf \<Longrightarrow> get_cf_config_for_domain cfg d s = (Some cf, s)"
  by (simp add: get_cf_config_for_domain_def)

lemma get_cf_config_None:
  "first_root (CLOUDFLARE_CONFIG cfg) d = None \<Longrightarrow>
     get_cf_config_for_domain cfg d s = (None, print (Skipping_domain d) s)"
  by (simp add: get_cf_config_for_domain_def)

subsection \<open>The loop over the deleted domains\<close>

lemma deleted_step_routable:
  "first_root (CLOUDFLARE_CONFIG cfg) d = Some cf \<Longrightarrow>
     fst (process_deleted_domain cfg p d (st, s)) = st(d := None)"
  by (simp add: process_deleted_domain_def get_cf_config_Some split: prod.splits option.splits)

lemma deleted_step_unroutable:
  "first_root (CLOUDFLARE_CONFIG cfg) d = None \<Longrightarrow>
     fst (process_deleted_domain cfg p d (st, s)) = st"
  by (simp add: process_deleted_domain_def get_cf_config_None)

lemma fold_deleted_stored:
  "fst (fold (process_deleted_domain cfg p) xs (st, s)) h =
     (if h \<in> set xs \<and> first_root (CLOUDFLARE_CONFIG cfg) h \<noteq> None then None else st h)"
proof (induction xs arbitrary: st s)
  case Nil
  then show ?case by simp
next
  case (Cons x xs)
  obtain st1 s1 where 1: "process_deleted_domain cfg p x (st, s) = (st1, s1)"
    by (cases "process_deleted_domain cfg p x (st, s)")
  have 2: "st1 = (if first_root (CLOUDFLARE_CONFIG cfg) x \<noteq> None then st(x := None) else st)"
    using 1 deleted_step_routable [of cfg x _ p st s] deleted_step_unroutable [of cfg x p st s]
    by (cases "first_root (CLOUDFLARE_CONFIG cfg) x") auto
  have "fst (fold (process_deleted_domain cfg p) (x # xs) (st, s)) h =
        fst (fold (process_deleted_domain cfg p) xs (st1, s1)) h"
    using 1 by simp
  also have "\<dots> = (if h \<in> set xs \<and> first_root (CLOUDFLARE_CONFIG cfg) h \<noteq> None then None else st1 h)"
    by (rule Cons.IH)
  finally show ?case using 2 by auto
qed

subsection \<open>The loop over the current domains\<close>

lemma current_step_other:
  "d \<noteq> h \<Longrightarrow> fst (process_current_domain cfg p cr ch fo a d (st, s)) h = st h"
  by (auto simp: process_current_domain_def split: prod.splits option.splits)

lemma current_step_cases:
  "fst (process_current_domain cfg p cr ch fo a d (st, s)) = st \<or>
   fst (process_current_domain cfg p cr ch fo a d (st, s)) = st(d \<mapsto> a)"
  by (auto simp: process_current_domain_def split: prod.splits option.splits)

lemma fold_current_other:
  "h \<notin> set xs \<Longrightarrow> fst (fold (process_current_domain cfg p cr ch fo a) xs (st, s)) h = st h"
proof (induction xs arbitrary: st s)
  case Nil
  then show ?case by simp
next
  case (Cons x xs)
  obtain st1 s1 where 1: "process_current_domain cfg p cr ch fo a x (st, s) = (st1, s1)"
    by (cases "process_current_domain cfg p cr ch fo a x (st, s)")
  from Cons.prems have "x \<noteq> h" "h \<notin> set xs" by auto
  with 1 current_step_other [of x h cfg p cr ch fo a st s] Cons.IH [of st1 s1]
  show ?case by simp
qed

lemma fold_current_keeps:
  "st h = Some a \<Longrightarrow> fst (fold (process_current_domain cfg p cr ch fo a) xs (st, s)) h = Some a"
proof (induction xs arbitrary: st s)
  case Nil
  then show ?case by simp
next
  case (Cons x xs)
  obtain st1 s1 where 1: "process_current_domain cfg p cr ch fo a x (st, s) = (st1, s1)"
    by (cases "process_current_domain cfg p cr ch fo a x (st, s)")
  from current_step_cases [of cfg p cr ch fo a x st s] 1 Cons.prems have "st1 h = Some a"
    by auto
  with 1 Cons.IH [of st1 s1] show ?case by simp
qed

lemma current_step_present:
  "st h \<noteq> None \<Longrightarrow> fst (process_current_domain cfg p cr ch fo a d (st, s)) h \<noteq> None"
  using current_step_cases [of cfg p cr ch fo a d st s] by auto

text \<open>The update branch: the entry is set, or the failure is printed.\<close>

lemma current_step_update:
  assumes "first_root (CLOUDFLARE_CONFIG cfg) h = Some cf" "h \<notin> set cr" "st h \<noteq> None" "ch \<or> fo"
    and "process_current_domain cfg p cr ch fo a h (st, s) = (st', s')"
  shows "st' h = Some a \<or> (\<exists>e. Error_updating_domain h e \<in> set (out s'))"
proof -
  let ?m = "if ch then Updating_domain h a else Forced_update h a"
  obtain y s2 where 2: "update_cloudflare_a_record (recursion_limit p) p h a cf (print ?m s) = (y, s2)"
    by (cases "update_cloudflare_a_record (recursion_limit p) p h a cf (print ?m s)")
  show ?thesis
  proof (cases y)
    case None
    with assms 2 have "st' h = Some a"
      by (auto simp: process_current_domain_def get_cf_config_Some)
    then show ?thesis by simp
  next
    case (Some e)
    with assms 2 have "s' = print (Error_updating_domain h e) s2"
      by (auto simp: process_current_domain_def get_cf_config_Some)
    then have "Error_updating_domain h e \<in> set (out s')" by simp
    then show ?thesis by blast
  qed
qed

lemma fold_current_update:
  assumes "first_root (CLOUDFLARE_CONFIG cfg) h = Some cf" "h \<notin> set cr" "ch \<or> fo"
  shows "h \<in> set xs \<Longrightarrow> st h \<noteq> None \<Longrightarrow>
         fold (process_current_domain cfg p cr ch fo a) xs (st, s) = (st', s') \<Longrightarrow>
         st' h = Some a \<or> (\<exists>e. Error_updating_domain h e \<in> set (out s'))"
proof (induction xs arbitrary: st s)
  case Nil
  then show ?case by simp
next
  case (Cons x xs)
  obtain st1 s1 where 1: "process_current_domain cfg p cr ch fo a x (st, s) = (st1, s1)"
    by (cases "process_current_domain cfg p cr ch fo a x (st, s)")
  with Cons.prems have rest: "fold (process_current_domain cfg p cr ch fo a) xs (st1, s1) = (st', s')"
    by simp
  have present: "st1 h \<noteq> None"
    using current_step_present [where st = st and h = h and d = x and s = s, OF Cons.prems(2), of cfg p cr ch fo a] 1
    by simp
  show ?case
  proof (cases "x = h")
    case True
    with 1 assms Cons.prems(2) have "st1 h = Some a \<or> (\<exists>e. Error_updating_domain h e \<in> set (out s1))"
      by (auto dest: current_step_update)
    then show ?thesis
    proof
      assume "st1 h = Some a"
      from fold_current_keeps [where st = st1 and h = h, OF this, of cfg p cr ch fo xs s1] rest
      show ?thesis by simp
    next
      assume "\<exists>e. Error_updating_domain h e \<in> set (out s1)"
      moreover have "grows s1 s'" using rest grows_refl by (rule grows_fold_current)
      ultimately show ?thesis by (blast dest: grows_out)
    qed
  next
    case False
    with Cons.prems(1) have "h \<in> set xs" by simp
    from Cons.IH [OF this present rest] show ?thesis .
  qed
qed

lemma reconcile_stored:
  "load_stored_ips (files_after (reconcile cfg p fs cur cr de ch fo a s)) =
     fst (fold (process_deleted_domain cfg p) (iterate (hash_deleted p) de)
            (fold (process_current_domain cfg p cr ch fo a) (iterate (hash_current p) cur) (load_stored_ips fs, s)))"
  by (simp add: reconcile_def load_stored_ips_def update_host_file_def split: prod.splits)

lemma reconcile_effects:
  "effects (reconcile cfg p fs cur cr de ch fo a s) =
     snd (fold (process_deleted_domain cfg p) (iterate (hash_deleted p) de)
            (fold (process_current_domain cfg p cr ch fo a) (iterate (hash_current p) cur) (load_stored_ips fs, s)))"
  by (simp add: reconcile_def split: prod.splits)

lemma reconcile_files:
  "\<exists>m. files_after (reconcile cfg p fs cur cr de ch fo a s) =
     \<lparr>hosts_filename = Some (concat (map (\<lambda>host. host @ [CHR 0x0A]) (iterate (hash_current p) cur))),
      domain_ips_file = Some (Object m), last_ip_file = Some a\<rparr>"
  by (cases fs) (simp add: reconcile_def update_host_file_def split: prod.splits)

lemma set_iterate [simp]: "set (iterate f xs) = set xs"
  by (simp add: iterate_def)

lemma distinct_iterate [simp]: "distinct (iterate f xs) = distinct xs"
  by (simp add: iterate_def)

lemma distinct_previous_domains [simp]: "distinct (previous_domains fs)"
  by (simp add: previous_domains_def split: option.splits)

lemma distinct_inventory:
  "inventory cfg p s = (Inr cur, s') \<Longrightarrow> distinct cur"
  by (auto simp: inventory_def domain_names_def split: prod.splits sum.splits payload.splits)

section \<open>Create or update\<close>

lemma update_each_record_requests:
  "update_each_record p d a cf rs s = (None, s') \<Longrightarrow>
     reqs s' = reqs s @ map (\<lambda>r. PUT_dns_record cf (rec_id r) (a_record_data d a))
                          (filter (\<lambda>r. rec_content r \<noteq> Some a) rs)"
proof (induction rs arbitrary: s)
  case Nil
  then show ?case by simp
next
  case (Cons r rs)
  show ?case
  proof (cases "rec_content r \<noteq> Some a")
    case False
    with Cons.prems have "update_each_record p d a cf rs (print (A_record_already_correct d a) s) = (None, s')"
      by simp
    from Cons.IH [OF this] False show ?thesis by simp
  next
    case True
    obtain y s1 where 1: "requests p (PUT_dns_record cf (rec_id r) (a_record_data d a)) s = (y, s1)"
      by (cases "requests p (PUT_dns_record cf (rec_id r) (a_record_data d a)) s")
    note e = requests_effects [OF 1]
    from Cons.prems True 1 obtain t where t: "update_each_record p d a cf rs t = (None, s')" "reqs t = reqs s1"
      by (auto split: sum.splits option.splits exn.splits)
    from Cons.IH [OF t(1)] t(2) e True show ?thesis by simp
  qed
qed

lemma update_each_record_returns:
  "\<forall>history. answered (network p history) \<Longrightarrow> fst (update_each_record p d a cf rs s) = None"
proof (induction rs arbitrary: s)
  case Nil
  then show ?case by simp
next
  case (Cons r rs)
  from Cons.prems have "answered (network p (reqs s @ [PUT_dns_record cf (rec_id r) (a_record_data d a)]))"
    by blast
  then show ?case using Cons.IH [OF Cons.prems]
    by (auto simp: answered_def requests_def raise_for_status_def json_def Let_def
        split: response.splits payload.splits)
qed

lemma check_effects:
  "check_cloudflare_record_exists p d cf s = (b, s1) \<Longrightarrow>
     s1 = snd (get_dns_records p d cf s) \<and>
     b = map_sum (\<lambda>e. e) (\<lambda>rs. rs \<noteq> []) (fst (get_dns_records p d cf s))"
  by (auto simp: check_cloudflare_record_exists_def split: prod.splits sum.splits)

section \<open>Writing the files and reading them back\<close>

lemma universal_newlines_id: "CHR 0x0D \<notin> set t \<Longrightarrow> universal_newlines t = t"
  by (induction t rule: universal_newlines.induct) auto

lemma split_lines_line:
  "CHR 0x0A \<notin> set h \<Longrightarrow> split_lines (h @ CHR 0x0A # rest) = h # split_lines rest"
  by (induction h) (auto split: list.splits)

lemma split_lines_written:
  "\<forall>h \<in> set hs. CHR 0x0A \<notin> set h \<Longrightarrow>
     split_lines (concat (map (\<lambda>host. host @ [CHR 0x0A]) hs)) = hs @ [[]]"
  by (induction hs) (auto simp: split_lines_line)

lemma strip_Nil [simp]: "strip [] = []"
  by (simp add: strip_def)

lemma previous_domains_written:
  assumes "\<forall>h \<in> set hs. h \<noteq> [] \<and> strip h = h \<and> CHR 0x0A \<notin> set h \<and> CHR 0x0D \<notin> set h"
  shows "previous_domains
           \<lparr>hosts_filename = Some (concat (map (\<lambda>host. host @ [CHR 0x0A]) hs)),
            domain_ips_file = d, last_ip_file = l\<rparr> = remdups hs"
proof -
  let ?t = "concat (map (\<lambda>host. host @ [CHR 0x0A]) hs)"
  from assms have nl: "\<forall>h \<in> set hs. CHR 0x0A \<notin> set h" and cr: "\<forall>h \<in> set hs. CHR 0x0D \<notin> set h"
    by blast+
  from cr have "CHR 0x0D \<notin> set ?t" by auto
  then have 1: "universal_newlines ?t = ?t" by (rule universal_newlines_id)
  have 2: "split_lines ?t = hs @ [[]]" using nl by (rule split_lines_written)
  have 3: "map strip hs = hs" using assms by (simp add: map_idI)
  have 4: "filter (\<lambda>l. l \<noteq> []) hs = hs" using assms by (simp add: filter_id_conv)
  show ?thesis by (simp add: previous_domains_def 1 2 3 4)
qed

lemma last_known_ip_written:
  assumes "strip a = a" "CHR 0x0D \<notin> set a"
  shows "last_known_ip \<lparr>hosts_filename = h, domain_ips_file = d, last_ip_file = Some a\<rparr> = Some a"
  using assms by (simp add: last_known_ip_def universal_newlines_id)

section \<open>The create branch\<close>

text \<open>What a call of create sends.\<close>

lemma create_lookup_first:
  assumes "0 < n"
  shows "\<exists>rest. reqs (snd (create_cloudflare_a_record n p d a cf s)) = reqs s @ GET_dns_records cf d # rest"
proof -
  obtain y s' where C: "create_cloudflare_a_record n p d a cf s = (y, s')"
    by (cases "create_cloudflare_a_record n p d a cf s")
  obtain x0 s0 where 0: "get_dns_records p d cf s = (x0, s0)"
    by (cases "get_dns_records p d cf s")
  note e0 = get_dns_records_effects [OF 0]
  obtain b s1 where 1: "check_cloudflare_record_exists p d cf s = (b, s1)"
    by (cases "check_cloudflare_record_exists p d cf s")
  from check_effects [OF 1] 0 have s1: "s1 = s0" by simp
  obtain z s2 where 2: "requests p (POST_dns_records cf (a_record_data d a)) s1 = (z, s2)"
    by (cases "requests p (POST_dns_records cf (a_record_data d a)) s1")
  have g2: "grows s1 s2" using 2 grows_refl by (rule grows_requests)
  have u: "update_cloudflare_a_record (n - 1) p d a cf t = (y, s') \<Longrightarrow> grows s1 t \<Longrightarrow> grows s1 s'" for t
    by (rule grows_update)
  from C 1 2 g2 have "grows s1 s'" unfolding create_unfold [OF assms]
    by (auto split: sum.splits bool.splits option.splits exn.splits intro: u)
  then have "prefix (reqs s @ [GET_dns_records cf d]) (reqs s')"
    using e0 s1 by (simp add: grows_def)
  then show ?thesis using C by (auto simp: prefix_def)
qed

lemma create_nothing_found:
  assumes "0 < n" "fst (get_dns_records p d cf s) = Inr []"
  shows "reqs (snd (create_cloudflare_a_record n p d a cf s)) =
           reqs s @ [GET_dns_records cf d, POST_dns_records cf (a_record_data d a)]"
proof -
  obtain x0 s0 where 0: "get_dns_records p d cf s = (x0, s0)"
    by (cases "get_dns_records p d cf s")
  note e0 = get_dns_records_effects [OF 0]
  obtain b s1 where 1: "check_cloudflare_record_exists p d cf s = (b, s1)"
    by (cases "check_cloudflare_record_exists p d cf s")
  from check_effects [OF 1] 0 assms(2) have s1: "s1 = s0" and b: "b = Inr False" by simp_all
  obtain z s2 where 2: "requests p (POST_dns_records cf (a_record_data d a)) s1 = (z, s2)"
    by (cases "requests p (POST_dns_records cf (a_record_data d a)) s1")
  note e2 = requests_effects [OF 2]
  from 1 2 b have "reqs (snd (create_cloudflare_a_record n p d a cf s)) = reqs s2"
    unfolding create_unfold [OF assms(1)]
    by (auto split: sum.splits option.splits exn.splits)
  with e0 e2 s1 show ?thesis by simp
qed

lemma create_records_found:
  assumes "1 < n"
    and "fst (get_dns_records p d cf s) = Inr found" "found \<noteq> []"
    and "fst (get_dns_records p d cf (print (A_record_already_exists d) (snd (get_dns_records p d cf s)))) =
           Inr results" "results \<noteq> []"
    and "fst (create_cloudflare_a_record n p d a cf s) = None"
  shows "reqs (snd (create_cloudflare_a_record n p d a cf s)) =
           reqs s @ [GET_dns_records cf d, GET_dns_records cf d] @
             map (\<lambda>r. PUT_dns_record cf (rec_id r) (a_record_data d a))
                 (filter (\<lambda>r. rec_content r \<noteq> Some a) results)"
proof -
  let ?C = "create_cloudflare_a_record n p d a cf s"
  from assms(1) have n0: "0 < n" and n1: "0 < n - 1" by simp_all
  obtain x0 s0 where 0: "get_dns_records p d cf s = (x0, s0)"
    by (cases "get_dns_records p d cf s")
  note e0 = get_dns_records_effects [OF 0]
  obtain b s1 where 1: "check_cloudflare_record_exists p d cf s = (b, s1)"
    by (cases "check_cloudflare_record_exists p d cf s")
  from check_effects [OF 1] 0 assms(2,3) have s1: "s1 = s0" and bt: "b = Inr True" by simp_all
  let ?t = "print (A_record_already_exists d) s0"
  obtain x3 s3 where 3: "get_dns_records p d cf ?t = (x3, s3)"
    by (cases "get_dns_records p d cf ?t")
  note e3 = get_dns_records_effects [OF 3]
  from assms(4,5) 0 3 have x3: "x3 = Inr results" and ne: "results \<noteq> []" by simp_all
  from 1 bt s1 have "?C = update_cloudflare_a_record (n - 1) p d a cf ?t"
    unfolding create_unfold [OF n0] by simp
  also have "\<dots> = update_each_record p d a cf results s3"
    unfolding update_unfold [OF n1] using 3 x3 ne by simp
  finally have eq: "?C = update_each_record p d a cf results s3" .
  with assms(6) have "update_each_record p d a cf results s3 = (None, snd ?C)"
    by (metis prod.collapse)
  from update_each_record_requests [OF this] e3 e0 show ?thesis by simp
qed

text \<open>The step of the first loop on a routable domain without an entry.\<close>

lemma current_step_create_call:
  assumes "first_root (CLOUDFLARE_CONFIG cfg) h = Some cf" "st h = None"
    and "process_current_domain cfg p cr ch fo a h (st, s) = (st', s')"
  shows "grows (snd (create_cloudflare_a_record (recursion_limit p) p h a cf
                       (print (New_domain_detected h a) s))) s' \<and>
         st' h = (if fst (create_cloudflare_a_record (recursion_limit p) p h a cf
                            (print (New_domain_detected h a) s)) = None
                  then Some a else None) \<and>
         (\<forall>e. fst (create_cloudflare_a_record (recursion_limit p) p h a cf
                      (print (New_domain_detected h a) s)) = Some e \<longrightarrow>
              Error_processing_creation h e \<in> set (out s'))"
proof -
  let ?C = "create_cloudflare_a_record (recursion_limit p) p h a cf (print (New_domain_detected h a) s)"
  obtain y s2 where 2: "?C = (y, s2)" by (cases ?C)
  show ?thesis
  proof (cases y)
    case None
    with assms 2 have "st' h = Some a" "s' = s2"
      by (auto simp: process_current_domain_def get_cf_config_Some)
    with 2 None show ?thesis by simp
  next
    case (Some e)
    with assms 2 have "s' = print (Error_processing_creation h e) s2" "st' h = None"
      by (auto simp: process_current_domain_def get_cf_config_Some)
    with 2 Some show ?thesis by simp
  qed
qed

lemma fold_current_create_call:
  assumes "first_root (CLOUDFLARE_CONFIG cfg) h = Some cf"
  shows "h \<in> set xs \<Longrightarrow> distinct xs \<Longrightarrow> \<forall>x \<in> set xs. st x = None \<Longrightarrow>
         fold (process_current_domain cfg p cr ch fo a) xs (st, s) = (st', s') \<Longrightarrow>
         \<exists>s0. grows (snd (create_cloudflare_a_record (recursion_limit p) p h a cf
                            (print (New_domain_detected h a) s0))) s' \<and>
              st' h = (if fst (create_cloudflare_a_record (recursion_limit p) p h a cf
                                 (print (New_domain_detected h a) s0)) = None
                       then Some a else None) \<and>
              (\<forall>e. fst (create_cloudflare_a_record (recursion_limit p) p h a cf
                           (print (New_domain_detected h a) s0)) = Some e \<longrightarrow>
                   Error_processing_creation h e \<in> set (out s'))"
proof (induction xs arbitrary: st s)
  case Nil
  then show ?case by simp
next
  case (Cons x xs)
  obtain st1 s1 where 1: "process_current_domain cfg p cr ch fo a x (st, s) = (st1, s1)"
    by (cases "process_current_domain cfg p cr ch fo a x (st, s)")
  with Cons.prems have rest: "fold (process_current_domain cfg p cr ch fo a) xs (st1, s1) = (st', s')"
    by simp
  have g: "grows s1 s'" using rest grows_refl by (rule grows_fold_current)
  show ?case
  proof (cases "x = h")
    case True
    from Cons.prems(3) True have "st h = None" by simp
    from current_step_create_call [where st = st and h = h, OF assms this] 1 True
    have c: "grows (snd (create_cloudflare_a_record (recursion_limit p) p h a cf
                       (print (New_domain_detected h a) s))) s1"
      "st1 h = (if fst (create_cloudflare_a_record (recursion_limit p) p h a cf
                            (print (New_domain_detected h a) s)) = None
                  then Some a else None)"
      "\<forall>e. fst (create_cloudflare_a_record (recursion_limit p) p h a cf
                      (print (New_domain_detected h a) s)) = Some e \<longrightarrow>
              Error_processing_creation h e \<in> set (out s1)"
      by blast+
    from Cons.prems(2) True have "h \<notin> set xs" by simp
    from fold_current_other [OF this, of cfg p cr ch fo a st1 s1] rest have "st' h = st1 h" by simp
    with c g show ?thesis
      by (intro exI [of _ s]) (auto dest: grows_out intro: grows_trans)
  next
    case False
    with Cons.prems(1) have h: "h \<in> set xs" by simp
    from Cons.prems(2) have d: "distinct xs" and nx: "x \<notin> set xs" by auto
    have "\<forall>y \<in> set xs. st1 y = None"
    proof
      fix y assume y: "y \<in> set xs"
      with nx have "x \<noteq> y" by auto
      from current_step_other [OF this, of cfg p cr ch fo a st s] 1 have "st1 y = st y" by simp
      with Cons.prems(3) y show "st1 y = None" by simp
    qed
    from Cons.IH [OF h d this rest] show ?thesis .
  qed
qed

section \<open>The claims\<close>

subsection \<open>The early exit\<close>

text \<open>
  C1. When the current set of host names equals the previous one, the last known IP
  equals the current public IP and \<open>FORCE_UPDATE\<close> is unset, \<open>main\<close> returns 0, leaves
  the three files as they were and sends nothing to the DNS provider: the only requests
  of the run are the three that fetched the inventory and the public IP.
\<close>

theorem early_exit_has_no_effects:
  assumes inv: "inventory cfg p start = (Inr current_domains, s)"
    and ip: "get_public_ip p s = (Some current_public_ip, s')"
    and nonempty: "current_public_ip \<noteq> []"
    and same: "set current_domains = set (previous_domains fs)"
    and last: "last_known_ip fs = Some current_public_ip"
    and unforced: "\<not> force_update p"
  shows "returned (main cfg p fs) = Inr 0 \<and> exit_status (main cfg p fs) = 0 \<and>
         files_after (main cfg p fs) = fs \<and>
         filter is_dns_request (reqs (effects (main cfg p fs))) = [] \<and>
         (\<exists>token. reqs (effects (main cfg p fs)) =
            [POST_tokens (NPM_API_URL cfg) (NPM_API_USER cfg) (NPM_API_PASS cfg),
             GET_proxy_hosts (NPM_API_URL cfg) token, GET_ipify])"
proof -
  note m = main_early_exit [OF inv ip nonempty same last unforced]
  from inventory_requests [OF inv] obtain token where
    t: "reqs s = [POST_tokens (NPM_API_URL cfg) (NPM_API_USER cfg) (NPM_API_PASS cfg),
                  GET_proxy_hosts (NPM_API_URL cfg) token]"
    by auto
  with get_public_ip_effects [OF ip] have
    r: "reqs s' = [POST_tokens (NPM_API_URL cfg) (NPM_API_USER cfg) (NPM_API_PASS cfg),
                   GET_proxy_hosts (NPM_API_URL cfg) token, GET_ipify]"
    by simp
  from m r show ?thesis by (simp add: exit_status_def)
qed

theorem early_exit_has_no_effects_witness:
  "returned (main example_config
      (online [[''a.example.com'']] (Http 200 (Json_Ip ''203.0.113.7'')) (dns_holding [] 200))
      (files_holding [''a.example.com''] Map.empty ''203.0.113.7'')) = Inr 0 \<and>
   files_after (main example_config
      (online [[''a.example.com'']] (Http 200 (Json_Ip ''203.0.113.7'')) (dns_holding [] 200))
      (files_holding [''a.example.com''] Map.empty ''203.0.113.7'')) =
     files_holding [''a.example.com''] Map.empty ''203.0.113.7'' \<and>
   filter is_dns_request (reqs (effects (main example_config
      (online [[''a.example.com'']] (Http 200 (Json_Ip ''203.0.113.7'')) (dns_holding [] 200))
      (files_holding [''a.example.com''] Map.empty ''203.0.113.7'')))) = []"
proof -
  let ?p = "online [[''a.example.com'']] (Http 200 (Json_Ip ''203.0.113.7'')) (dns_holding [] 200)"
  let ?fs = "files_holding [''a.example.com''] Map.empty ''203.0.113.7''"
  let ?s = "\<lparr>reqs = [POST_tokens ''http://npm:81'' ''admin'' ''changeme'',
                       GET_proxy_hosts ''http://npm:81'' ''jwt''], out = []\<rparr>"
  let ?s' = "\<lparr>reqs = [POST_tokens ''http://npm:81'' ''admin'' ''changeme'',
                       GET_proxy_hosts ''http://npm:81'' ''jwt'', GET_ipify], out = []\<rparr>"
  have 1: "inventory example_config ?p start = (Inr [''a.example.com''], ?s)"
    by (simp add: run_defs Let_def)
  have 2: "get_public_ip ?p ?s = (Some ''203.0.113.7'', ?s')"
    by (simp add: run_defs Let_def)
  have 3: "''203.0.113.7'' \<noteq> []" by simp
  have 4: "set [''a.example.com''] = set (previous_domains ?fs)"
    by (simp add: run_defs)
  have 5: "last_known_ip ?fs = Some ''203.0.113.7''"
    by (simp add: run_defs)
  have 6: "\<not> force_update ?p"
    by (simp add: run_defs)
  from early_exit_has_no_effects [OF 1 2 3 4 5 6] show ?thesis by simp
qed

subsection \<open>Running twice\<close>

text \<open>
  C2, as amended. Let a first run get its inventory and public IP, from any files and
  with any \<open>FORCE_UPDATE\<close>, and let a second run start from the files the first one
  left, with \<open>FORCE_UPDATE\<close> unset, the same set of host names from the inventory and
  the same public IP. If every host name survives being written on a line of
  \<open>proxy_hosts.txt\<close> and read back (it is not empty, \<open>strip\<close> leaves it as it is, and
  it holds no line feed and no carriage return), and so does the public IP
  (\<open>strip\<close> leaves it as it is and it holds no carriage return), then the second run
  sends no request to the DNS provider, returns 0 and leaves the files as they are.
\<close>

theorem second_run_sends_nothing:
  assumes inv1: "inventory cfg p1 start = (Inr current1, s1)"
    and ip1: "get_public_ip p1 s1 = (Some current_public_ip, s1')"
    and inv2: "inventory cfg p2 start = (Inr current2, s2)"
    and ip2: "get_public_ip p2 s2 = (Some current_public_ip, s2')"
    and nonempty: "current_public_ip \<noteq> []"
    and same: "set current2 = set current1"
    and unforced: "\<not> force_update p2"
    and names: "\<forall>h \<in> set current1.
                  h \<noteq> [] \<and> strip h = h \<and> CHR 0x0A \<notin> set h \<and> CHR 0x0D \<notin> set h"
    and address: "strip current_public_ip = current_public_ip \<and> CHR 0x0D \<notin> set current_public_ip"
  shows "filter is_dns_request (reqs (effects (main cfg p2 (files_after (main cfg p1 fs))))) = [] \<and>
         returned (main cfg p2 (files_after (main cfg p1 fs))) = Inr 0 \<and>
         files_after (main cfg p2 (files_after (main cfg p1 fs))) = files_after (main cfg p1 fs)"
proof -
  let ?fs1 = "files_after (main cfg p1 fs)"
  have "set current1 = set (previous_domains ?fs1) \<and> last_known_ip ?fs1 = Some current_public_ip"
  proof (cases "set current1 \<noteq> set (previous_domains fs) \<or>
                last_known_ip fs \<noteq> Some current_public_ip \<or> force_update p1")
    case True
    note m = main_reconcile [OF inv1 ip1 nonempty True]
    from reconcile_files obtain st where
      f: "?fs1 = \<lparr>hosts_filename =
                    Some (concat (map (\<lambda>host. host @ [CHR 0x0A]) (iterate (hash_current p1) current1))),
                  domain_ips_file = Some (Object st), last_ip_file = Some current_public_ip\<rparr>"
      unfolding m by blast
    have "\<forall>h \<in> set (iterate (hash_current p1) current1).
            h \<noteq> [] \<and> strip h = h \<and> CHR 0x0A \<notin> set h \<and> CHR 0x0D \<notin> set h"
      using names by simp
    from previous_domains_written [OF this] last_known_ip_written address
    show ?thesis unfolding f by simp
  next
    case False
    then have c: "set current1 = set (previous_domains fs)"
      "last_known_ip fs = Some current_public_ip" "\<not> force_update p1"
      by simp_all
    from main_early_exit [OF inv1 ip1 nonempty c] have "?fs1 = fs" by simp
    with c show ?thesis by simp
  qed
  then have a: "set current2 = set (previous_domains ?fs1)"
    and b: "last_known_ip ?fs1 = Some current_public_ip"
    using same by simp_all
  note m = main_early_exit [OF inv2 ip2 nonempty a b unforced]
  from inventory_effects [OF inv2] get_public_ip_effects [OF ip2]
  have "filter is_dns_request (reqs s2') = []" by simp
  with m show ?thesis by simp
qed

theorem second_run_sends_nothing_witness:
  "reqs (effects (main example_config
      (online [[''b.example.com'', ''a.example.com'']] (Http 200 (Json_Ip ''203.0.113.7'')) (dns_holding [] 200))
      no_files)) =
     [POST_tokens ''http://npm:81'' ''admin'' ''changeme'',
      GET_proxy_hosts ''http://npm:81'' ''jwt'', GET_ipify,
      GET_dns_records zone_a ''b.example.com'',
      POST_dns_records zone_a (a_record_data ''b.example.com'' ''203.0.113.7''),
      GET_dns_records zone_a ''a.example.com'',
      POST_dns_records zone_a (a_record_data ''a.example.com'' ''203.0.113.7'')] \<and>
   filter is_dns_request (reqs (effects (main example_config
      (online [[''a.example.com''], [''b.example.com'']] (Http 200 (Json_Ip ''203.0.113.7'')) (dns_holding [] 200))
      (files_after (main example_config
         (online [[''b.example.com'', ''a.example.com'']] (Http 200 (Json_Ip ''203.0.113.7'')) (dns_holding [] 200))
         no_files))))) = [] \<and>
   returned (main example_config
      (online [[''a.example.com''], [''b.example.com'']] (Http 200 (Json_Ip ''203.0.113.7'')) (dns_holding [] 200))
      (files_after (main example_config
         (online [[''b.example.com'', ''a.example.com'']] (Http 200 (Json_Ip ''203.0.113.7'')) (dns_holding [] 200))
         no_files))) = Inr 0"
proof -
  let ?p1 = "online [[''b.example.com'', ''a.example.com'']] (Http 200 (Json_Ip ''203.0.113.7'')) (dns_holding [] 200)"
  let ?p2 = "online [[''a.example.com''], [''b.example.com'']] (Http 200 (Json_Ip ''203.0.113.7'')) (dns_holding [] 200)"
  let ?s = "\<lparr>reqs = [POST_tokens ''http://npm:81'' ''admin'' ''changeme'',
                       GET_proxy_hosts ''http://npm:81'' ''jwt''], out = []\<rparr>"
  let ?s' = "\<lparr>reqs = [POST_tokens ''http://npm:81'' ''admin'' ''changeme'',
                       GET_proxy_hosts ''http://npm:81'' ''jwt'', GET_ipify], out = []\<rparr>"
  have 1: "inventory example_config ?p1 start = (Inr [''b.example.com'', ''a.example.com''], ?s)"
    by (simp add: run_defs Let_def)
  have 2: "get_public_ip ?p1 ?s = (Some ''203.0.113.7'', ?s')"
    by (simp add: run_defs Let_def)
  have 3: "inventory example_config ?p2 start = (Inr [''a.example.com'', ''b.example.com''], ?s)"
    by (simp add: run_defs Let_def)
  have 4: "get_public_ip ?p2 ?s = (Some ''203.0.113.7'', ?s')"
    by (simp add: run_defs Let_def)
  have 5: "''203.0.113.7'' \<noteq> []" by simp
  have 6: "set [''a.example.com'', ''b.example.com''] = set [''b.example.com'', ''a.example.com'']"
    by auto
  have 7: "\<not> force_update ?p2" by (simp add: run_defs)
  have 8: "\<forall>h \<in> set [''b.example.com'', ''a.example.com''].
             h \<noteq> [] \<and> strip h = h \<and> CHR 0x0A \<notin> set h \<and> CHR 0x0D \<notin> set h"
    by (simp add: strip_def is_space_def)
  have 9: "strip ''203.0.113.7'' = ''203.0.113.7'' \<and> CHR 0x0D \<notin> set ''203.0.113.7''"
    by (simp add: strip_def is_space_def)
  have 10: "reqs (effects (main example_config ?p1 no_files)) =
     [POST_tokens ''http://npm:81'' ''admin'' ''changeme'',
      GET_proxy_hosts ''http://npm:81'' ''jwt'', GET_ipify,
      GET_dns_records zone_a ''b.example.com'',
      POST_dns_records zone_a (a_record_data ''b.example.com'' ''203.0.113.7''),
      GET_dns_records zone_a ''a.example.com'',
      POST_dns_records zone_a (a_record_data ''a.example.com'' ''203.0.113.7'')]"
    by (simp add: run_defs Let_def create_unfold update_unfold)
  from second_run_sends_nothing [OF 1 2 3 4 5 6 7 8 9, of no_files] 10 show ?thesis by simp
qed

text \<open>
  C2 as stated fails: NPM lists a host name with a blank in front,
  \<open>" a.example.com"\<close>. The first run creates its record and writes the name on a
  line of \<open>proxy_hosts.txt\<close>. The second run, with the same inventory, the same public
  IP and \<open>FORCE_UPDATE\<close> unset, reads the line back stripped, as \<open>"a.example.com"\<close>:
  it takes the listed name for new and the stripped one for removed, and sends a lookup
  and a create for the first and a lookup for the second.
\<close>

theorem padded_name_is_sent_again:
  "fst (inventory example_config
      (online [['' a.example.com'']] (Http 200 (Json_Ip ''203.0.113.7'')) (dns_holding [] 200))
      start) = Inr ['' a.example.com''] \<and>
   fst (get_public_ip
      (online [['' a.example.com'']] (Http 200 (Json_Ip ''203.0.113.7'')) (dns_holding [] 200))
      start) = Some ''203.0.113.7'' \<and>
   \<not> force_update
      (online [['' a.example.com'']] (Http 200 (Json_Ip ''203.0.113.7'')) (dns_holding [] 200)) \<and>
   returned (main example_config
      (online [['' a.example.com'']] (Http 200 (Json_Ip ''203.0.113.7'')) (dns_holding [] 200))
      no_files) = Inr 0 \<and>
   hosts_filename (files_after (main example_config
      (online [['' a.example.com'']] (Http 200 (Json_Ip ''203.0.113.7'')) (dns_holding [] 200))
      no_files)) = Some ('' a.example.com'' @ [CHR 0x0A]) \<and>
   previous_domains (files_after (main example_config
      (online [['' a.example.com'']] (Http 200 (Json_Ip ''203.0.113.7'')) (dns_holding [] 200))
      no_files)) = [''a.example.com''] \<and>
   filter is_dns_request (reqs (effects (main example_config
      (online [['' a.example.com'']] (Http 200 (Json_Ip ''203.0.113.7'')) (dns_holding [] 200))
      (files_after (main example_config
         (online [['' a.example.com'']] (Http 200 (Json_Ip ''203.0.113.7'')) (dns_holding [] 200))
         no_files))))) =
     [GET_dns_records zone_a '' a.example.com'',
      POST_dns_records zone_a (a_record_data '' a.example.com'' ''203.0.113.7''),
      GET_dns_records zone_a ''a.example.com'']"
  by (simp add: run_defs Let_def create_unfold update_unfold)

subsection \<open>Stale entries\<close>

text \<open>
  C3, as amended. Take a host name that is in the previous and in the current set, that
  the router resolves, and whose entry in the stored record differs from the current
  public IP. If the public IP differs from the last known public IP or \<open>FORCE_UPDATE\<close>
  is set, and \<open>main\<close> did not print a failure of the update for this host name (the
  update returned without raising), then the entry written to \<open>domain_ips.json\<close> is the
  current public IP.
\<close>

theorem stale_entry_updated_on_ip_change:
  assumes inv: "inventory cfg p start = (Inr current_domains, s)"
    and ip: "get_public_ip p s = (Some current_public_ip, s')"
    and nonempty: "current_public_ip \<noteq> []"
    and cur: "h \<in> set current_domains"
    and prev: "h \<in> set (previous_domains fs)"
    and stale: "load_stored_ips fs h = Some old" "old \<noteq> current_public_ip"
    and routable: "first_root (CLOUDFLARE_CONFIG cfg) h = Some cf"
    and changed: "last_known_ip fs \<noteq> Some current_public_ip \<or> force_update p"
    and ok: "\<forall>e. Error_updating_domain h e \<notin> set (out (effects (main cfg p fs)))"
  shows "load_stored_ips (files_after (main cfg p fs)) h = Some current_public_ip"
proof -
  from changed have c: "set current_domains \<noteq> set (previous_domains fs) \<or>
                last_known_ip fs \<noteq> Some current_public_ip \<or> force_update p"
    by blast
  note m = main_reconcile [OF inv ip nonempty c]
  let ?cr = "filter (\<lambda>d. d \<notin> set (previous_domains fs)) current_domains"
  let ?de = "filter (\<lambda>d. d \<notin> set current_domains) (previous_domains fs)"
  let ?ch = "last_known_ip fs \<noteq> Some current_public_ip"
  let ?s4 = "log_status p ?cr ?de (last_known_ip fs) current_public_ip s'"
  obtain st1 s1 where 1:
    "fold (process_current_domain cfg p ?cr ?ch (force_update p) current_public_ip)
       (iterate (hash_current p) current_domains) (load_stored_ips fs, ?s4) = (st1, s1)"
    by (cases "fold (process_current_domain cfg p ?cr ?ch (force_update p) current_public_ip)
       (iterate (hash_current p) current_domains) (load_stored_ips fs, ?s4)")
  obtain st2 s2 where 2: "fold (process_deleted_domain cfg p) (iterate (hash_deleted p) ?de) (st1, s1) = (st2, s2)"
    by (cases "fold (process_deleted_domain cfg p) (iterate (hash_deleted p) ?de) (st1, s1)")
  have eff: "effects (main cfg p fs) = s2"
    unfolding m reconcile_effects 1 2 by simp
  have sto: "load_stored_ips (files_after (main cfg p fs)) h = st2 h"
    unfolding m reconcile_stored 1 2 by simp
  have "h \<notin> set ?cr" using prev by simp
  moreover have "h \<in> set (iterate (hash_current p) current_domains)" using cur by simp
  moreover have "load_stored_ips fs h \<noteq> None" using stale by simp
  ultimately have "st1 h = Some current_public_ip \<or> (\<exists>e. Error_updating_domain h e \<in> set (out s1))"
    using fold_current_update [where st = "load_stored_ips fs" and h = h, OF routable _ changed _ _ 1]
    by blast
  moreover have "grows s1 s2" using 2 grows_refl by (rule grows_fold_deleted)
  ultimately have "st1 h = Some current_public_ip" using ok eff by (blast dest: grows_out)
  moreover have "h \<notin> set (iterate (hash_deleted p) ?de)" using cur by simp
  then have "st2 h = st1 h"
    using fold_deleted_stored [of cfg p "iterate (hash_deleted p) ?de" st1 s1 h] 2 by auto
  ultimately show ?thesis using sto by simp
qed

theorem stale_entry_updated_on_ip_change_witness:
  "load_stored_ips (files_after (main example_config
      (online [[''a.example.com'']] (Http 200 (Json_Ip ''203.0.113.7''))
         (dns_holding [\<lparr>rec_id = Some ''r1'', rec_content = Some ''198.51.100.1''\<rparr>] 200))
      (files_holding [''a.example.com''] [''a.example.com'' \<mapsto> ''198.51.100.1''] ''198.51.100.1'')))
     ''a.example.com'' = Some ''203.0.113.7'' \<and>
   PUT_dns_record zone_a (Some ''r1'') (a_record_data ''a.example.com'' ''203.0.113.7'')
     \<in> set (reqs (effects (main example_config
      (online [[''a.example.com'']] (Http 200 (Json_Ip ''203.0.113.7''))
         (dns_holding [\<lparr>rec_id = Some ''r1'', rec_content = Some ''198.51.100.1''\<rparr>] 200))
      (files_holding [''a.example.com''] [''a.example.com'' \<mapsto> ''198.51.100.1''] ''198.51.100.1''))))"
proof -
  let ?p = "online [[''a.example.com'']] (Http 200 (Json_Ip ''203.0.113.7''))
         (dns_holding [\<lparr>rec_id = Some ''r1'', rec_content = Some ''198.51.100.1''\<rparr>] 200)"
  let ?fs = "files_holding [''a.example.com''] [''a.example.com'' \<mapsto> ''198.51.100.1''] ''198.51.100.1''"
  let ?s = "\<lparr>reqs = [POST_tokens ''http://npm:81'' ''admin'' ''changeme'',
                       GET_proxy_hosts ''http://npm:81'' ''jwt''], out = []\<rparr>"
  let ?s' = "\<lparr>reqs = [POST_tokens ''http://npm:81'' ''admin'' ''changeme'',
                       GET_proxy_hosts ''http://npm:81'' ''jwt'', GET_ipify], out = []\<rparr>"
  have 1: "inventory example_config ?p start = (Inr [''a.example.com''], ?s)"
    by (simp add: run_defs Let_def)
  have 2: "get_public_ip ?p ?s = (Some ''203.0.113.7'', ?s')"
    by (simp add: run_defs Let_def)
  have 3: "''203.0.113.7'' \<noteq> []" by simp
  have 4: "''a.example.com'' \<in> set [''a.example.com'']" by simp
  have 5: "''a.example.com'' \<in> set (previous_domains ?fs)"
    by (simp add: run_defs)
  have 6: "load_stored_ips ?fs ''a.example.com'' = Some ''198.51.100.1''"
    by (simp add: run_defs)
  have 7: "''198.51.100.1'' \<noteq> ''203.0.113.7''" by simp
  have 8: "first_root (CLOUDFLARE_CONFIG example_config) ''a.example.com'' = Some zone_a"
    by (simp add: run_defs)
  have 9: "last_known_ip ?fs \<noteq> Some ''203.0.113.7'' \<or> force_update ?p"
    by (simp add: run_defs)
  have e: "effects (main example_config ?p ?fs) =
     \<lparr>reqs = [POST_tokens ''http://npm:81'' ''admin'' ''changeme'',
              GET_proxy_hosts ''http://npm:81'' ''jwt'', GET_ipify,
              GET_dns_records zone_a ''a.example.com'',
              PUT_dns_record zone_a (Some ''r1'') (a_record_data ''a.example.com'' ''203.0.113.7'')],
      out = [IP_change_detected ''198.51.100.1'' ''203.0.113.7'',
             Updating_domain ''a.example.com'' ''203.0.113.7'',
             A_record_updated ''a.example.com'' ''203.0.113.7'']\<rparr>"
    by (simp add: run_defs Let_def create_unfold update_unfold)
  have 10: "\<forall>e. Error_updating_domain ''a.example.com'' e \<notin> set (out (effects (main example_config ?p ?fs)))"
    unfolding e by simp
  from stale_entry_updated_on_ip_change [OF 1 2 3 4 5 6 7 8 9 10] e show ?thesis by simp
qed

text \<open>
  C3 as stated fails: \<open>a.example.com\<close> is in both sets with the stale entry
  \<open>198.51.100.1\<close>, the public IP \<open>203.0.113.7\<close> is the one in \<open>last_public_ip.txt\<close>,
  and \<open>b.example.com\<close> is new. Every request succeeds and \<open>main\<close> returns 0, but for
  \<open>a.example.com\<close> it prints "No changes needed" and the entry stays stale: the loop
  compares the public IP with the last known IP, never with the stored entry.
\<close>

theorem stale_entry_survives_without_ip_change:
  "''a.example.com'' \<in> set (previous_domains
      (files_holding [''a.example.com''] [''a.example.com'' \<mapsto> ''198.51.100.1''] ''203.0.113.7'')) \<and>
   fst (inventory example_config
      (online [[''a.example.com'', ''b.example.com'']] (Http 200 (Json_Ip ''203.0.113.7'')) (dns_holding [] 200))
      start) = Inr [''a.example.com'', ''b.example.com''] \<and>
   fst (get_cf_config_for_domain example_config ''a.example.com'' start) = Some zone_a \<and>
   load_stored_ips
      (files_holding [''a.example.com''] [''a.example.com'' \<mapsto> ''198.51.100.1''] ''203.0.113.7'')
      ''a.example.com'' = Some ''198.51.100.1'' \<and>
   returned (main example_config
      (online [[''a.example.com'', ''b.example.com'']] (Http 200 (Json_Ip ''203.0.113.7'')) (dns_holding [] 200))
      (files_holding [''a.example.com''] [''a.example.com'' \<mapsto> ''198.51.100.1''] ''203.0.113.7'')) = Inr 0 \<and>
   out (effects (main example_config
      (online [[''a.example.com'', ''b.example.com'']] (Http 200 (Json_Ip ''203.0.113.7'')) (dns_holding [] 200))
      (files_holding [''a.example.com''] [''a.example.com'' \<mapsto> ''198.51.100.1''] ''203.0.113.7''))) =
     [Domain_changes_detected 1 0, New_domains [''b.example.com''],
      No_changes_needed ''a.example.com'',
      New_domain_detected ''b.example.com'' ''203.0.113.7'',
      A_record_created ''b.example.com'' ''203.0.113.7''] \<and>
   load_stored_ips (files_after (main example_config
      (online [[''a.example.com'', ''b.example.com'']] (Http 200 (Json_Ip ''203.0.113.7'')) (dns_holding [] 200))
      (files_holding [''a.example.com''] [''a.example.com'' \<mapsto> ''198.51.100.1''] ''203.0.113.7'')))
     ''a.example.com'' = Some ''198.51.100.1''"
  by (simp add: run_defs Let_def create_unfold update_unfold)

subsection \<open>Deleted host names\<close>

text \<open>
  C4, as amended. Take a host name of the previous set that is not in the current one,
  in a run that has the inventory and the public IP (such a run never exits early).
  The run rewrites \<open>domain_ips.json\<close>. If the router resolves the host name, its entry
  is gone afterwards, whatever the remote delete did (succeeded, failed with a status,
  raised). If the router does not resolve it, the loop goes on to the next host name
  (\<open>continue\<close>, line 259) before it reaches the \<open>del\<close>, and the entry is what it was.
\<close>

theorem deleted_routable_entry_removed:
  assumes inv: "inventory cfg p start = (Inr current_domains, s)"
    and ip: "get_public_ip p s = (Some current_public_ip, s')"
    and nonempty: "current_public_ip \<noteq> []"
    and prev: "h \<in> set (previous_domains fs)"
    and gone: "h \<notin> set current_domains"
  shows "(\<exists>m. domain_ips_file (files_after (main cfg p fs)) = Some (Object m)) \<and>
         load_stored_ips (files_after (main cfg p fs)) h =
           (if first_root (CLOUDFLARE_CONFIG cfg) h = None then load_stored_ips fs h else None)"
proof -
  from prev gone have "set current_domains \<noteq> set (previous_domains fs)" by auto
  then have c: "set current_domains \<noteq> set (previous_domains fs) \<or>
                last_known_ip fs \<noteq> Some current_public_ip \<or> force_update p"
    by simp
  note m = main_reconcile [OF inv ip nonempty c]
  let ?cr = "filter (\<lambda>d. d \<notin> set (previous_domains fs)) current_domains"
  let ?de = "filter (\<lambda>d. d \<notin> set current_domains) (previous_domains fs)"
  let ?ch = "last_known_ip fs \<noteq> Some current_public_ip"
  let ?s4 = "log_status p ?cr ?de (last_known_ip fs) current_public_ip s'"
  obtain st1 s1 where 1:
    "fold (process_current_domain cfg p ?cr ?ch (force_update p) current_public_ip)
       (iterate (hash_current p) current_domains) (load_stored_ips fs, ?s4) = (st1, s1)"
    by (cases "fold (process_current_domain cfg p ?cr ?ch (force_update p) current_public_ip)
       (iterate (hash_current p) current_domains) (load_stored_ips fs, ?s4)")
  have "h \<notin> set (iterate (hash_current p) current_domains)" using gone by simp
  from fold_current_other [OF this, of cfg p ?cr ?ch "force_update p" current_public_ip
      "load_stored_ips fs" ?s4] 1
  have st1: "st1 h = load_stored_ips fs h" by simp
  have de: "h \<in> set (iterate (hash_deleted p) ?de)" using prev gone by simp
  have "load_stored_ips (files_after (main cfg p fs)) h =
          fst (fold (process_deleted_domain cfg p) (iterate (hash_deleted p) ?de) (st1, s1)) h"
    unfolding m reconcile_stored 1 ..
  also have "\<dots> = (if first_root (CLOUDFLARE_CONFIG cfg) h = None then load_stored_ips fs h else None)"
    unfolding fold_deleted_stored using de st1 by simp
  finally have "load_stored_ips (files_after (main cfg p fs)) h =
           (if first_root (CLOUDFLARE_CONFIG cfg) h = None then load_stored_ips fs h else None)" .
  moreover from reconcile_files [of cfg p fs current_domains ?cr ?de ?ch "force_update p"
      current_public_ip ?s4]
  have "\<exists>m. domain_ips_file (files_after (main cfg p fs)) = Some (Object m)"
    unfolding m by auto
  ultimately show ?thesis by simp
qed

theorem deleted_routable_entry_removed_witness:
  "load_stored_ips (files_after (main example_config
      (online [] (Http 200 (Json_Ip ''203.0.113.7''))
         (dns_holding [\<lparr>rec_id = Some ''r1'', rec_content = Some ''203.0.113.7''\<rparr>] 500))
      (files_holding [''old.example.com''] [''old.example.com'' \<mapsto> ''203.0.113.7''] ''203.0.113.7'')))
     ''old.example.com'' = None \<and>
   Error_deleting_A_record ''old.example.com'' 500 \<in> set (out (effects (main example_config
      (online [] (Http 200 (Json_Ip ''203.0.113.7''))
         (dns_holding [\<lparr>rec_id = Some ''r1'', rec_content = Some ''203.0.113.7''\<rparr>] 500))
      (files_holding [''old.example.com''] [''old.example.com'' \<mapsto> ''203.0.113.7''] ''203.0.113.7''))))"
proof -
  let ?p = "online [] (Http 200 (Json_Ip ''203.0.113.7''))
         (dns_holding [\<lparr>rec_id = Some ''r1'', rec_content = Some ''203.0.113.7''\<rparr>] 500)"
  let ?fs = "files_holding [''old.example.com''] [''old.example.com'' \<mapsto> ''203.0.113.7''] ''203.0.113.7''"
  let ?s = "\<lparr>reqs = [POST_tokens ''http://npm:81'' ''admin'' ''changeme'',
                       GET_proxy_hosts ''http://npm:81'' ''jwt''], out = []\<rparr>"
  let ?s' = "\<lparr>reqs = [POST_tokens ''http://npm:81'' ''admin'' ''changeme'',
                       GET_proxy_hosts ''http://npm:81'' ''jwt'', GET_ipify], out = []\<rparr>"
  have 1: "inventory example_config ?p start = (Inr [], ?s)"
    by (simp add: run_defs Let_def)
  have 2: "get_public_ip ?p ?s = (Some ''203.0.113.7'', ?s')"
    by (simp add: run_defs Let_def)
  have 3: "''203.0.113.7'' \<noteq> []" by simp
  have 4: "''old.example.com'' \<in> set (previous_domains ?fs)"
    by (simp add: run_defs)
  have 5: "''old.example.com'' \<notin> set []" by simp
  have 6: "first_root (CLOUDFLARE_CONFIG example_config) ''old.example.com'' \<noteq> None"
    by (simp add: run_defs)
  have 7: "Error_deleting_A_record ''old.example.com'' 500 \<in> set (out (effects (main example_config ?p ?fs)))"
    by (simp add: run_defs Let_def)
  from deleted_routable_entry_removed [OF 1 2 3 4 5] 6 7 show ?thesis by simp
qed

text \<open>
  C4 as stated fails for a host name without routing configuration:
  \<open>gone.example.org\<close> was tracked, is no longer listed by NPM and ends with no
  configured root. The run completes, rewrites the files, and the entry is still there.
\<close>

theorem unroutable_deleted_entry_stays:
  "''gone.example.org'' \<in> set (previous_domains
      (files_holding [''gone.example.org''] [''gone.example.org'' \<mapsto> ''203.0.113.7''] ''203.0.113.7'')) \<and>
   fst (inventory example_config
      (online [] (Http 200 (Json_Ip ''203.0.113.7'')) (dns_holding [] 200)) start) = Inr [] \<and>
   fst (get_cf_config_for_domain example_config ''gone.example.org'' start) = None \<and>
   returned (main example_config
      (online [] (Http 200 (Json_Ip ''203.0.113.7'')) (dns_holding [] 200))
      (files_holding [''gone.example.org''] [''gone.example.org'' \<mapsto> ''203.0.113.7''] ''203.0.113.7'')) = Inr 0 \<and>
   hosts_filename (files_after (main example_config
      (online [] (Http 200 (Json_Ip ''203.0.113.7'')) (dns_holding [] 200))
      (files_holding [''gone.example.org''] [''gone.example.org'' \<mapsto> ''203.0.113.7''] ''203.0.113.7''))) = Some [] \<and>
   load_stored_ips (files_after (main example_config
      (online [] (Http 200 (Json_Ip ''203.0.113.7'')) (dns_holding [] 200))
      (files_holding [''gone.example.org''] [''gone.example.org'' \<mapsto> ''203.0.113.7''] ''203.0.113.7'')))
     ''gone.example.org'' = Some ''203.0.113.7''"
  by (simp add: run_defs Let_def create_unfold update_unfold)

subsection \<open>A create that the provider rejects\<close>

text \<open>
  C5 on a concrete run. NPM lists \<open>a.example.com\<close>, nothing is stored yet, the lookup
  finds no record and the provider answers the create with status 500 and a JSON body.
  \<open>create_cloudflare_a_record\<close> catches the \<open>HTTPError\<close>, prints it and returns, so
  \<open>main\<close> records the host name with the current public IP although no record
  exists. The next run with the same inventory and IP exits early: it sends nothing to
  the provider, so the create is not tried again. When the provider rejects the lookup
  instead, with the same status, the exception reaches \<open>main\<close>, which prints it and
  does not record the host name.
\<close>

theorem rejected_create_is_recorded:
  "out (effects (main example_config
      (online [[''a.example.com'']] (Http 200 (Json_Ip ''203.0.113.7'')) (dns_holding [] 500))
      no_files)) =
     [Domain_changes_detected 1 0, New_domains [''a.example.com''],
      Initial_IP_detection ''203.0.113.7'',
      New_domain_detected ''a.example.com'' ''203.0.113.7'',
      Error_creating_A_record ''a.example.com'' 500, Details] \<and>
   load_stored_ips (files_after (main example_config
      (online [[''a.example.com'']] (Http 200 (Json_Ip ''203.0.113.7'')) (dns_holding [] 500))
      no_files)) ''a.example.com'' = Some ''203.0.113.7'' \<and>
   reqs (effects (main example_config
      (online [[''a.example.com'']] (Http 200 (Json_Ip ''203.0.113.7'')) (dns_holding [] 200))
      (files_after (main example_config
         (online [[''a.example.com'']] (Http 200 (Json_Ip ''203.0.113.7'')) (dns_holding [] 500))
         no_files)))) =
     [POST_tokens ''http://npm:81'' ''admin'' ''changeme'',
      GET_proxy_hosts ''http://npm:81'' ''jwt'', GET_ipify] \<and>
   out (effects (main example_config
      (online [[''a.example.com'']] (Http 200 (Json_Ip ''203.0.113.7'')) (\<lambda>r. Http 500 Json_Other))
      no_files)) =
     [Domain_changes_detected 1 0, New_domains [''a.example.com''],
      Initial_IP_detection ''203.0.113.7'',
      New_domain_detected ''a.example.com'' ''203.0.113.7'',
      Error_processing_creation ''a.example.com'' (HTTPError 500)] \<and>
   load_stored_ips (files_after (main example_config
      (online [[''a.example.com'']] (Http 200 (Json_Ip ''203.0.113.7'')) (\<lambda>r. Http 500 Json_Other))
      no_files)) ''a.example.com'' = None"
  by (simp add: run_defs Let_def create_unfold update_unfold)

subsection \<open>The exit status\<close>

text \<open>
  C6, as amended. The exit status is 0 whenever \<open>main\<close> runs to its end: on the early
  exit and after a reconciliation, whatever happened to the single host names. It is 1
  when the public IP could not be resolved (\<open>main\<close> returns 1), and also when the
  inventory could not be fetched: \<open>get_npm_token\<close>, \<open>get_proxy_hosts\<close> and the set
  comprehension stand outside every \<open>try\<close>, so their exception ends the process with
  status 1.
\<close>

theorem exit_status_of_main:
  "exit_status (main cfg p fs) =
     (case inventory cfg p start of
        (Inl e, s) \<Rightarrow> 1
      | (Inr current_domains, s) \<Rightarrow>
          (case fst (get_public_ip p s) of
             None \<Rightarrow> 1
           | Some current_public_ip \<Rightarrow> if current_public_ip = [] then 1 else 0))"
proof -
  obtain x s where 1: "inventory cfg p start = (x, s)"
    by (cases "inventory cfg p start")
  obtain a s' where 2: "get_public_ip p s = (a, s')"
    by (cases "get_public_ip p s")
  show ?thesis
  proof (cases x)
    case (Inl e)
    with 1 show ?thesis by (simp add: main_def exit_status_def)
  next
    case (Inr cur)
    show ?thesis
    proof (cases "a = None \<or> a = Some []")
      case True
      with 1 2 Inr main_ip_fails [of cfg p cur s a s' fs] show ?thesis
        by (auto simp: exit_status_def)
    next
      case False
      then obtain b where b: "a = Some b" "b \<noteq> []" by auto
      with 1 2 Inr show ?thesis
        by (simp add: main_def Let_def exit_status_def)
    qed
  qed
qed

theorem exit_status_of_main_witness:
  "exit_status (main example_config (no_login ''203.0.113.7'') no_files) = 1 \<and>
   fst (inventory example_config (no_login ''203.0.113.7'') start) = Inl (HTTPError 401)"
proof -
  have "fst (inventory example_config (no_login ''203.0.113.7'') start) = Inl (HTTPError 401)"
    by (simp add: run_defs Let_def)
  with exit_status_of_main [of example_config "no_login ''203.0.113.7''" no_files]
  show ?thesis by (simp split: prod.splits)
qed

text \<open>
  C6 as stated fails: NPM refuses the login with 401 while ipify would answer; the run
  ends with status 1.
\<close>

theorem login_failure_exits_nonzero:
  "fst (inventory example_config (no_login ''203.0.113.7'') start) = Inl (HTTPError 401) \<and>
   fst (get_public_ip (no_login ''203.0.113.7'') start) = Some ''203.0.113.7'' \<and>
   exit_status (main example_config (no_login ''203.0.113.7'') no_files) = 1"
  by (simp add: run_defs Let_def exit_status_def)

subsection \<open>The domain router\<close>

text \<open>
  C7. \<open>get_cf_config_for_domain\<close> returns the configuration of the first item of
  \<open>CLOUDFLARE_CONFIG\<close>, in iteration order, whose root the host name ends with, and
  \<open>None\<close> when the host name ends with no configured root; ending with a root means
  being some prefix followed by the root. With the single root \<open>example.com\<close>,
  \<open>app.example.com\<close> resolves and \<open>example.com.evil.org\<close> does not.
\<close>

theorem resolve_first_matching_root:
  "(fst (get_cf_config_for_domain cfg domain s) = Some cf \<longleftrightarrow>
      (\<exists>i < length (CLOUDFLARE_CONFIG cfg).
          endswith domain (fst (CLOUDFLARE_CONFIG cfg ! i)) \<and>
          snd (CLOUDFLARE_CONFIG cfg ! i) = cf \<and>
          (\<forall>j < i. \<not> endswith domain (fst (CLOUDFLARE_CONFIG cfg ! j))))) \<and>
   (fst (get_cf_config_for_domain cfg domain s) = None \<longleftrightarrow>
      (\<forall>root \<in> fst ` set (CLOUDFLARE_CONFIG cfg). \<not> endswith domain root)) \<and>
   (endswith domain root \<longleftrightarrow> (\<exists>pre. domain = pre @ root)) \<and>
   fst (get_cf_config_for_domain (cfg\<lparr>CLOUDFLARE_CONFIG := [(''example.com'', c)]\<rparr>)
          ''app.example.com'' s) = Some c \<and>
   fst (get_cf_config_for_domain (cfg\<lparr>CLOUDFLARE_CONFIG := [(''example.com'', c)]\<rparr>)
          ''example.com.evil.org'' s) = None"
proof (intro conjI)
  show "fst (get_cf_config_for_domain cfg domain s) = Some cf \<longleftrightarrow>
      (\<exists>i < length (CLOUDFLARE_CONFIG cfg).
          endswith domain (fst (CLOUDFLARE_CONFIG cfg ! i)) \<and>
          snd (CLOUDFLARE_CONFIG cfg ! i) = cf \<and>
          (\<forall>j < i. \<not> endswith domain (fst (CLOUDFLARE_CONFIG cfg ! j))))"
    unfolding fst_get_cf_config by (rule first_root_Some)
  show "fst (get_cf_config_for_domain cfg domain s) = None \<longleftrightarrow>
      (\<forall>root \<in> fst ` set (CLOUDFLARE_CONFIG cfg). \<not> endswith domain root)"
    unfolding fst_get_cf_config by (rule first_root_None)
  show "endswith domain root \<longleftrightarrow> (\<exists>pre. domain = pre @ root)"
    by (rule endswith_iff)
  show "fst (get_cf_config_for_domain (cfg\<lparr>CLOUDFLARE_CONFIG := [(''example.com'', c)]\<rparr>)
          ''app.example.com'' s) = Some c"
    by (simp add: get_cf_config_for_domain_def endswith_def)
  show "fst (get_cf_config_for_domain (cfg\<lparr>CLOUDFLARE_CONFIG := [(''example.com'', c)]\<rparr>)
          ''example.com.evil.org'' s) = None"
    by (simp add: get_cf_config_for_domain_def endswith_def)
qed

theorem resolve_first_matching_root_witness:
  "fst (get_cf_config_for_domain two_roots ''app.example.com'' start) = Some zone_a \<and>
   (\<exists>i < length (CLOUDFLARE_CONFIG two_roots).
       endswith ''app.example.com'' (fst (CLOUDFLARE_CONFIG two_roots ! i)) \<and>
       snd (CLOUDFLARE_CONFIG two_roots ! i) = zone_a \<and>
       (\<forall>j < i. \<not> endswith ''app.example.com'' (fst (CLOUDFLARE_CONFIG two_roots ! j)))) \<and>
   endswith ''app.example.com'' ''com''"
proof -
  have 1: "fst (get_cf_config_for_domain two_roots ''app.example.com'' start) = Some zone_a"
    by (simp add: get_cf_config_for_domain_def two_roots_def endswith_def)
  have 2: "endswith ''app.example.com'' ''com''"
    by (simp add: endswith_def)
  from 1 2 resolve_first_matching_root
    [where cfg = two_roots and domain = "''app.example.com''" and s = start and cf = zone_a]
  show ?thesis by blast
qed

subsection \<open>Create or update\<close>

text \<open>
  C8. \<open>create_cloudflare_a_record\<close>, called with room on the call stack for itself and
  for \<open>update_cloudflare_a_record\<close>, first sends the lookup for the host name. If the
  lookup returns no record, the only other request is one POST of an A record with
  \<open>type = A\<close>, \<open>ttl = 3600\<close>, \<open>proxied = true\<close> and the IP as content. If it returns
  records, the function hands over to \<open>update_cloudflare_a_record\<close>, which repeats the
  lookup and goes through the records it gets: when the call returns without raising,
  its requests after the two lookups are exactly one PUT, with the same document, for
  each record whose content differs from the IP, in the order of the records, and none
  for a record whose content is the IP. It does return without raising when the
  provider answers every request (a response arrives, and an error status comes with a
  JSON body).
\<close>

theorem create_or_update:
  assumes depth: "1 < n"
  shows
    "(\<exists>rest. reqs (snd (create_cloudflare_a_record n p domain a cf s)) =
        reqs s @ GET_dns_records cf domain # rest) \<and>
     (fst (get_dns_records p domain cf s) = Inr [] \<longrightarrow>
        reqs (snd (create_cloudflare_a_record n p domain a cf s)) =
          reqs s @ [GET_dns_records cf domain,
                    POST_dns_records cf \<lparr>rr_type = ''A'', rr_name = domain, rr_content = a,
                                          rr_ttl = 3600, rr_proxied = True\<rparr>]) \<and>
     (\<forall>found results.
        fst (get_dns_records p domain cf s) = Inr found \<and> found \<noteq> [] \<and>
        fst (get_dns_records p domain cf
               (print (A_record_already_exists domain) (snd (get_dns_records p domain cf s)))) =
          Inr results \<and> results \<noteq> [] \<and>
        fst (create_cloudflare_a_record n p domain a cf s) = None \<longrightarrow>
        reqs (snd (create_cloudflare_a_record n p domain a cf s)) =
          reqs s @ [GET_dns_records cf domain, GET_dns_records cf domain] @
            map (\<lambda>r. PUT_dns_record cf (rec_id r)
                        \<lparr>rr_type = ''A'', rr_name = domain, rr_content = a,
                         rr_ttl = 3600, rr_proxied = True\<rparr>)
                (filter (\<lambda>r. rec_content r \<noteq> Some a) results)) \<and>
     (\<forall>found results.
        fst (get_dns_records p domain cf s) = Inr found \<and> found \<noteq> [] \<and>
        fst (get_dns_records p domain cf
               (print (A_record_already_exists domain) (snd (get_dns_records p domain cf s)))) =
          Inr results \<and> results \<noteq> [] \<and>
        (\<forall>history. answered (network p history)) \<longrightarrow>
        fst (create_cloudflare_a_record n p domain a cf s) = None)"
proof (intro conjI allI impI)
  let ?C = "create_cloudflare_a_record n p domain a cf s"
  obtain x0 s0 where 0: "get_dns_records p domain cf s = (x0, s0)"
    by (cases "get_dns_records p domain cf s")
  note e0 = get_dns_records_effects [OF 0]
  obtain b s1 where 1: "check_cloudflare_record_exists p domain cf s = (b, s1)"
    by (cases "check_cloudflare_record_exists p domain cf s")
  from check_effects [OF 1] 0 have s1: "s1 = s0" and b: "b = map_sum (\<lambda>e. e) (\<lambda>rs. rs \<noteq> []) x0"
    by simp_all
  from depth have n0: "0 < n" and n1: "0 < n - 1" by simp_all
  obtain y s' where C: "?C = (y, s')" by (cases ?C)
  show "\<exists>rest. reqs (snd ?C) = reqs s @ GET_dns_records cf domain # rest"
  proof -
    obtain z s2 where 2: "requests p (POST_dns_records cf (a_record_data domain a)) s1 = (z, s2)"
      by (cases "requests p (POST_dns_records cf (a_record_data domain a)) s1")
    have g2: "grows s1 s2" using 2 grows_refl by (rule grows_requests)
    have u: "update_cloudflare_a_record (n - 1) p domain a cf t = (y, s') \<Longrightarrow> grows s1 t \<Longrightarrow> grows s1 s'" for t
      by (rule grows_update)
    from C 1 2 g2 have "grows s1 s'" unfolding create_unfold [OF n0]
      by (auto split: sum.splits bool.splits option.splits exn.splits intro: u)
    then have "prefix (reqs s @ [GET_dns_records cf domain]) (reqs s')"
      using e0 s1 by (simp add: grows_def)
    then show ?thesis using C by (auto simp: prefix_def)
  qed
  show "reqs (snd ?C) = reqs s @ [GET_dns_records cf domain,
          POST_dns_records cf \<lparr>rr_type = ''A'', rr_name = domain, rr_content = a,
                                rr_ttl = 3600, rr_proxied = True\<rparr>]"
    if "fst (get_dns_records p domain cf s) = Inr []"
  proof -
    from that 0 b have "b = Inr False" by simp
    obtain z s2 where 2: "requests p (POST_dns_records cf (a_record_data domain a)) s1 = (z, s2)"
      by (cases "requests p (POST_dns_records cf (a_record_data domain a)) s1")
    note e2 = requests_effects [OF 2]
    from 1 2 \<open>b = Inr False\<close> have "reqs (snd ?C) = reqs s2"
      unfolding create_unfold [OF n0]
      by (auto split: sum.splits option.splits exn.splits)
    with e0 e2 s1 show ?thesis by (simp add: a_record_data_def)
  qed
  show "reqs (snd ?C) = reqs s @ [GET_dns_records cf domain, GET_dns_records cf domain] @
            map (\<lambda>r. PUT_dns_record cf (rec_id r)
                        \<lparr>rr_type = ''A'', rr_name = domain, rr_content = a,
                         rr_ttl = 3600, rr_proxied = True\<rparr>)
                (filter (\<lambda>r. rec_content r \<noteq> Some a) results)"
    if h: "fst (get_dns_records p domain cf s) = Inr found \<and> found \<noteq> [] \<and>
        fst (get_dns_records p domain cf
               (print (A_record_already_exists domain) (snd (get_dns_records p domain cf s)))) =
          Inr results \<and> results \<noteq> [] \<and> fst ?C = None"
    for found results
  proof -
    let ?t = "print (A_record_already_exists domain) s0"
    from h 0 b have bt: "b = Inr True" by simp
    obtain x3 s3 where 3: "get_dns_records p domain cf ?t = (x3, s3)"
      by (cases "get_dns_records p domain cf ?t")
    note e3 = get_dns_records_effects [OF 3]
    from h 0 3 have x3: "x3 = Inr results" and ne: "results \<noteq> []" by simp_all
    from 1 bt s1 have "?C = update_cloudflare_a_record (n - 1) p domain a cf ?t"
      unfolding create_unfold [OF n0] by simp
    also have "\<dots> = update_each_record p domain a cf results s3"
      unfolding update_unfold [OF n1] using 3 x3 ne by simp
    finally have eq: "?C = update_each_record p domain a cf results s3" .
    with h have "update_each_record p domain a cf results s3 = (None, snd ?C)"
      by (metis prod.collapse)
    from update_each_record_requests [OF this] e3 e0 show ?thesis
      by (simp add: a_record_data_def)
  qed
  show "fst ?C = None"
    if h: "fst (get_dns_records p domain cf s) = Inr found \<and> found \<noteq> [] \<and>
        fst (get_dns_records p domain cf
               (print (A_record_already_exists domain) (snd (get_dns_records p domain cf s)))) =
          Inr results \<and> results \<noteq> [] \<and> (\<forall>history. answered (network p history))"
    for found results
  proof -
    let ?t = "print (A_record_already_exists domain) s0"
    from h 0 b have bt: "b = Inr True" by simp
    obtain x3 s3 where 3: "get_dns_records p domain cf ?t = (x3, s3)"
      by (cases "get_dns_records p domain cf ?t")
    from h 0 3 have x3: "x3 = Inr results" and ne: "results \<noteq> []" by simp_all
    from 1 bt s1 have "?C = update_cloudflare_a_record (n - 1) p domain a cf ?t"
      unfolding create_unfold [OF n0] by simp
    also have "\<dots> = update_each_record p domain a cf results s3"
      unfolding update_unfold [OF n1] using 3 x3 ne by simp
    finally have "?C = update_each_record p domain a cf results s3" .
    moreover from h have "\<forall>history. answered (network p history)" by simp
    ultimately show ?thesis by (simp add: update_each_record_returns)
  qed
qed


theorem create_or_update_witness:
  "fst (create_cloudflare_a_record 1000
          (online [] No_Response
             (dns_holding [\<lparr>rec_id = Some ''r1'', rec_content = Some ''198.51.100.1''\<rparr>,
                           \<lparr>rec_id = Some ''r2'', rec_content = Some ''203.0.113.7''\<rparr>,
                           \<lparr>rec_id = Some ''r3'', rec_content = Some ''198.51.100.1''\<rparr>] 200))
          ''a.example.com'' ''203.0.113.7'' zone_a start) = None \<and>
   reqs (snd (create_cloudflare_a_record 1000
          (online [] No_Response
             (dns_holding [\<lparr>rec_id = Some ''r1'', rec_content = Some ''198.51.100.1''\<rparr>,
                           \<lparr>rec_id = Some ''r2'', rec_content = Some ''203.0.113.7''\<rparr>,
                           \<lparr>rec_id = Some ''r3'', rec_content = Some ''198.51.100.1''\<rparr>] 200))
          ''a.example.com'' ''203.0.113.7'' zone_a start)) =
     [GET_dns_records zone_a ''a.example.com'', GET_dns_records zone_a ''a.example.com'',
      PUT_dns_record zone_a (Some ''r1'')
        \<lparr>rr_type = ''A'', rr_name = ''a.example.com'', rr_content = ''203.0.113.7'',
         rr_ttl = 3600, rr_proxied = True\<rparr>,
      PUT_dns_record zone_a (Some ''r3'')
        \<lparr>rr_type = ''A'', rr_name = ''a.example.com'', rr_content = ''203.0.113.7'',
         rr_ttl = 3600, rr_proxied = True\<rparr>] \<and>
   reqs (snd (create_cloudflare_a_record 1000 (online [] No_Response (dns_holding [] 200))
          ''a.example.com'' ''203.0.113.7'' zone_a start)) =
     [GET_dns_records zone_a ''a.example.com'',
      POST_dns_records zone_a
        \<lparr>rr_type = ''A'', rr_name = ''a.example.com'', rr_content = ''203.0.113.7'',
         rr_ttl = 3600, rr_proxied = True\<rparr>]"
proof -
  let ?rs = "[\<lparr>rec_id = Some ''r1'', rec_content = Some ''198.51.100.1''\<rparr>,
              \<lparr>rec_id = Some ''r2'', rec_content = Some ''203.0.113.7''\<rparr>,
              \<lparr>rec_id = Some ''r3'', rec_content = Some ''198.51.100.1''\<rparr>]"
  let ?p = "online [] No_Response (dns_holding ?rs 200)"
  let ?q = "online [] No_Response (dns_holding [] 200)"
  let ?d = "''a.example.com''"
  let ?a = "''203.0.113.7''"
  have n: "(1::nat) < 1000" by simp
  have 1: "fst (get_dns_records ?p ?d zone_a start) = Inr ?rs"
    by (simp add: run_defs Let_def)
  have 2: "fst (get_dns_records ?p ?d zone_a
                 (print (A_record_already_exists ?d) (snd (get_dns_records ?p ?d zone_a start)))) = Inr ?rs"
    by (simp add: run_defs Let_def)
  have 3: "fst (create_cloudflare_a_record 1000 ?p ?d ?a zone_a start) = None"
    by (simp add: run_defs Let_def create_unfold update_unfold)
  have 4: "fst (get_dns_records ?q ?d zone_a start) = Inr []"
    by (simp add: run_defs Let_def)
  from create_or_update [OF n, of ?p ?d ?a zone_a start] 1 2 3
  have "reqs (snd (create_cloudflare_a_record 1000 ?p ?d ?a zone_a start)) =
          reqs start @ [GET_dns_records zone_a ?d, GET_dns_records zone_a ?d] @
            map (\<lambda>r. PUT_dns_record zone_a (rec_id r)
                        \<lparr>rr_type = ''A'', rr_name = ?d, rr_content = ?a,
                         rr_ttl = 3600, rr_proxied = True\<rparr>)
                (filter (\<lambda>r. rec_content r \<noteq> Some ?a) ?rs)"
    by blast
  moreover from create_or_update [OF n, of ?q ?d ?a zone_a start] 4
  have "reqs (snd (create_cloudflare_a_record 1000 ?q ?d ?a zone_a start)) =
          reqs start @ [GET_dns_records zone_a ?d,
                    POST_dns_records zone_a \<lparr>rr_type = ''A'', rr_name = ?d, rr_content = ?a,
                                          rr_ttl = 3600, rr_proxied = True\<rparr>]"
    by blast
  ultimately show ?thesis using 3 by simp
qed

subsection \<open>Fatal failures\<close>

text \<open>
  C9. If the inventory cannot be fetched (the login, the listing or its reading raises)
  or the public IP cannot be resolved (\<open>get_public_ip\<close> returns \<open>None\<close> or an empty
  string), \<open>main\<close> ends before it writes: the three files are exactly as before, and no
  request went to the DNS provider.
\<close>

theorem fatal_failure_writes_nothing:
  assumes "(\<exists>e s. inventory cfg p start = (Inl e, s)) \<or>
           (\<exists>cur s a s'. inventory cfg p start = (Inr cur, s) \<and> get_public_ip p s = (a, s') \<and>
              (a = None \<or> a = Some []))"
  shows "files_after (main cfg p fs) = fs \<and>
         filter is_dns_request (reqs (effects (main cfg p fs))) = [] \<and>
         exit_status (main cfg p fs) = 1"
proof -
  consider e s where "inventory cfg p start = (Inl e, s)"
    | cur s a s' where "inventory cfg p start = (Inr cur, s)" "get_public_ip p s = (a, s')"
        "a = None \<or> a = Some []"
    using assms by blast
  then show ?thesis
  proof cases
    case 1
    from inventory_effects [OF 1] main_inventory_fails [OF 1, of fs]
    show ?thesis by (simp add: exit_status_def)
  next
    case 2
    from inventory_effects [OF 2(1)] get_public_ip_effects [OF 2(2)] main_ip_fails [OF 2, of fs]
    show ?thesis by (simp add: exit_status_def)
  qed
qed

theorem fatal_failure_writes_nothing_witness:
  "files_after (main example_config (no_login ''203.0.113.7'')
      (files_holding [''a.example.com''] Map.empty ''198.51.100.1'')) =
     files_holding [''a.example.com''] Map.empty ''198.51.100.1'' \<and>
   exit_status (main example_config (no_login ''203.0.113.7'')
      (files_holding [''a.example.com''] Map.empty ''198.51.100.1'')) = 1 \<and>
   files_after (main example_config (online [[''b.example.com'']] No_Response (dns_holding [] 200))
      (files_holding [''a.example.com''] Map.empty ''198.51.100.1'')) =
     files_holding [''a.example.com''] Map.empty ''198.51.100.1''"
proof -
  let ?fs = "files_holding [''a.example.com''] Map.empty ''198.51.100.1''"
  let ?p = "online [[''b.example.com'']] No_Response (dns_holding [] 200)"
  have "inventory example_config (no_login ''203.0.113.7'') start =
          (Inl (HTTPError 401), \<lparr>reqs = [POST_tokens ''http://npm:81'' ''admin'' ''changeme''], out = []\<rparr>)"
    by (simp add: run_defs Let_def)
  then have 1: "(\<exists>e s. inventory example_config (no_login ''203.0.113.7'') start = (Inl e, s)) \<or>
           (\<exists>cur s a s'. inventory example_config (no_login ''203.0.113.7'') start = (Inr cur, s) \<and>
              get_public_ip (no_login ''203.0.113.7'') s = (a, s') \<and> (a = None \<or> a = Some []))"
    by blast
  let ?s = "\<lparr>reqs = [POST_tokens ''http://npm:81'' ''admin'' ''changeme'',
                       GET_proxy_hosts ''http://npm:81'' ''jwt''], out = []\<rparr>"
  have a: "inventory example_config ?p start = (Inr [''b.example.com''], ?s)"
    by (simp add: run_defs Let_def)
  have b: "fst (get_public_ip ?p ?s) = None"
    by (simp add: run_defs Let_def)
  have 2: "(\<exists>e s. inventory example_config ?p start = (Inl e, s)) \<or>
           (\<exists>cur s a s'. inventory example_config ?p start = (Inr cur, s) \<and>
              get_public_ip ?p s = (a, s') \<and> (a = None \<or> a = Some []))"
    using a b by (metis prod.collapse)
  from fatal_failure_writes_nothing [OF 1, of ?fs] fatal_failure_writes_nothing [OF 2, of ?fs]
  show ?thesis by simp
qed

subsection \<open>A lost store\<close>

text \<open>
  C10, as amended. If \<open>domain_ips.json\<close> is missing or does not parse, a run that gets
  past the early-exit check does not fail (it returns 0) and goes on with the empty
  dict. Every host name of the current set that the router resolves then takes the
  branch for new domains, also when it is in the previous set: \<open>main\<close> prints "New
  domain detected" for it and calls \<open>create_cloudflare_a_record\<close> at that point of the
  run. The requests of the call are requests of the run: given room on the call stack,
  first the lookup; then, when the lookup finds nothing, the POST of the A record, and
  when both lookups find records and the call returns, one PUT for each record whose
  content differs. The host name has an entry with the current public IP in the file
  written at the end exactly when the call returns without raising; when it raises,
  \<open>main\<close> prints the exception and the host name has no entry.
\<close>

theorem lost_store_recreates_every_host:
  assumes inv: "inventory cfg p start = (Inr current_domains, s)"
    and ip: "get_public_ip p s = (Some current_public_ip, s')"
    and nonempty: "current_public_ip \<noteq> []"
    and work: "set current_domains \<noteq> set (previous_domains fs) \<or>
               last_known_ip fs \<noteq> Some current_public_ip \<or> force_update p"
    and lost: "domain_ips_file fs = None \<or> domain_ips_file fs = Some Unparseable"
    and cur: "h \<in> set current_domains"
    and routable: "first_root (CLOUDFLARE_CONFIG cfg) h = Some cf"
  shows "returned (main cfg p fs) = Inr 0 \<and>
         load_stored_ips fs = Map.empty \<and>
         New_domain_detected h current_public_ip \<in> set (out (effects (main cfg p fs))) \<and>
         (\<exists>s0 y s1.
            create_cloudflare_a_record (recursion_limit p) p h current_public_ip cf
              (print (New_domain_detected h current_public_ip) s0) = (y, s1) \<and>
            prefix (reqs s1) (reqs (effects (main cfg p fs))) \<and>
            prefix (out s1) (out (effects (main cfg p fs))) \<and>
            load_stored_ips (files_after (main cfg p fs)) h =
              (if y = None then Some current_public_ip else None) \<and>
            (\<forall>e. y = Some e \<longrightarrow>
                 Error_processing_creation h e \<in> set (out (effects (main cfg p fs)))) \<and>
            (0 < recursion_limit p \<longrightarrow>
               (\<exists>rest. reqs s1 = reqs s0 @ GET_dns_records cf h # rest)) \<and>
            (0 < recursion_limit p \<and>
             fst (get_dns_records p h cf (print (New_domain_detected h current_public_ip) s0)) = Inr [] \<longrightarrow>
               reqs s1 = reqs s0 @ [GET_dns_records cf h,
                                    POST_dns_records cf (a_record_data h current_public_ip)]) \<and>
            (\<forall>found results.
               1 < recursion_limit p \<and>
               fst (get_dns_records p h cf (print (New_domain_detected h current_public_ip) s0)) =
                 Inr found \<and> found \<noteq> [] \<and>
               fst (get_dns_records p h cf
                      (print (A_record_already_exists h)
                         (snd (get_dns_records p h cf
                                 (print (New_domain_detected h current_public_ip) s0))))) =
                 Inr results \<and> results \<noteq> [] \<and> y = None \<longrightarrow>
               reqs s1 = reqs s0 @ [GET_dns_records cf h, GET_dns_records cf h] @
                 map (\<lambda>r. PUT_dns_record cf (rec_id r) (a_record_data h current_public_ip))
                     (filter (\<lambda>r. rec_content r \<noteq> Some current_public_ip) results)))"
proof -
  note m = main_reconcile [OF inv ip nonempty work]
  let ?a = current_public_ip
  let ?cr = "filter (\<lambda>d. d \<notin> set (previous_domains fs)) current_domains"
  let ?de = "filter (\<lambda>d. d \<notin> set current_domains) (previous_domains fs)"
  let ?ch = "last_known_ip fs \<noteq> Some ?a"
  let ?s4 = "log_status p ?cr ?de (last_known_ip fs) ?a s'"
  have empty: "load_stored_ips fs = Map.empty"
    using lost by (auto simp: load_stored_ips_def)
  obtain st1 t1 where 1:
    "fold (process_current_domain cfg p ?cr ?ch (force_update p) ?a)
       (iterate (hash_current p) current_domains) (load_stored_ips fs, ?s4) = (st1, t1)"
    by (cases "fold (process_current_domain cfg p ?cr ?ch (force_update p) ?a)
       (iterate (hash_current p) current_domains) (load_stored_ips fs, ?s4)")
  obtain st2 t2 where 2:
    "fold (process_deleted_domain cfg p) (iterate (hash_deleted p) ?de) (st1, t1) = (st2, t2)"
    by (cases "fold (process_deleted_domain cfg p) (iterate (hash_deleted p) ?de) (st1, t1)")
  have eff: "effects (main cfg p fs) = t2"
    unfolding m reconcile_effects 1 2 by simp
  have sto: "load_stored_ips (files_after (main cfg p fs)) h = st2 h"
    unfolding m reconcile_stored 1 2 by simp
  have "h \<in> set (iterate (hash_current p) current_domains)" using cur by simp
  moreover have "distinct (iterate (hash_current p) current_domains)"
    using distinct_inventory [OF inv] by simp
  moreover have "\<forall>x \<in> set (iterate (hash_current p) current_domains). load_stored_ips fs x = None"
    using empty by simp
  ultimately obtain s0 where c:
    "grows (snd (create_cloudflare_a_record (recursion_limit p) p h ?a cf
                   (print (New_domain_detected h ?a) s0))) t1"
    "st1 h = (if fst (create_cloudflare_a_record (recursion_limit p) p h ?a cf
                        (print (New_domain_detected h ?a) s0)) = None
              then Some ?a else None)"
    "\<forall>e. fst (create_cloudflare_a_record (recursion_limit p) p h ?a cf
                 (print (New_domain_detected h ?a) s0)) = Some e \<longrightarrow>
          Error_processing_creation h e \<in> set (out t1)"
    using fold_current_create_call [where st = "load_stored_ips fs" and h = h, OF routable _ _ _ 1]
    by blast
  let ?t = "print (New_domain_detected h ?a) s0"
  obtain y s1 where C: "create_cloudflare_a_record (recursion_limit p) p h ?a cf ?t = (y, s1)"
    by (cases "create_cloudflare_a_record (recursion_limit p) p h ?a cf ?t")
  have g12: "grows t1 t2" using 2 grows_refl by (rule grows_fold_deleted)
  from c(1) C have g1: "grows s1 t1" by simp
  from g1 g12 have g: "grows s1 t2" by (rule grows_trans)
  have "h \<notin> set (iterate (hash_deleted p) ?de)" using cur by simp
  then have "st2 h = st1 h"
    using fold_deleted_stored [of cfg p "iterate (hash_deleted p) ?de" st1 t1 h] 2 by auto
  with c(2) C sto have entry:
    "load_stored_ips (files_after (main cfg p fs)) h = (if y = None then Some ?a else None)"
    by simp
  from c(3) C g12 eff have err:
    "\<forall>e. y = Some e \<longrightarrow> Error_processing_creation h e \<in> set (out (effects (main cfg p fs)))"
    by (auto dest: grows_out)
  have "grows ?t s1" using C grows_refl by (rule grows_create)
  then have "New_domain_detected h ?a \<in> set (out s1)"
    by (rule grows_out) simp
  with g eff have msg: "New_domain_detected h ?a \<in> set (out (effects (main cfg p fs)))"
    by (auto dest: grows_out)
  from g eff have pre: "prefix (reqs s1) (reqs (effects (main cfg p fs)))"
    "prefix (out s1) (out (effects (main cfg p fs)))"
    by (simp_all add: grows_def)
  have first: "0 < recursion_limit p \<longrightarrow> (\<exists>rest. reqs s1 = reqs s0 @ GET_dns_records cf h # rest)"
    using create_lookup_first [of "recursion_limit p" p h ?a cf ?t] C by auto
  have post: "0 < recursion_limit p \<and> fst (get_dns_records p h cf ?t) = Inr [] \<longrightarrow>
        reqs s1 = reqs s0 @ [GET_dns_records cf h, POST_dns_records cf (a_record_data h ?a)]"
    using create_nothing_found [of "recursion_limit p" p h cf ?t ?a] C by auto
  have put: "\<forall>found results.
        1 < recursion_limit p \<and>
        fst (get_dns_records p h cf ?t) = Inr found \<and> found \<noteq> [] \<and>
        fst (get_dns_records p h cf
               (print (A_record_already_exists h) (snd (get_dns_records p h cf ?t)))) =
          Inr results \<and> results \<noteq> [] \<and> y = None \<longrightarrow>
        reqs s1 = reqs s0 @ [GET_dns_records cf h, GET_dns_records cf h] @
          map (\<lambda>r. PUT_dns_record cf (rec_id r) (a_record_data h ?a))
              (filter (\<lambda>r. rec_content r \<noteq> Some ?a) results)"
  proof (intro allI impI)
    fix found results
    assume h: "1 < recursion_limit p \<and>
        fst (get_dns_records p h cf ?t) = Inr found \<and> found \<noteq> [] \<and>
        fst (get_dns_records p h cf
               (print (A_record_already_exists h) (snd (get_dns_records p h cf ?t)))) =
          Inr results \<and> results \<noteq> [] \<and> y = None"
    then have "fst (create_cloudflare_a_record (recursion_limit p) p h ?a cf ?t) = None"
      using C by simp
    with h create_records_found [of "recursion_limit p" p h cf ?t found results ?a] C
    show "reqs s1 = reqs s0 @ [GET_dns_records cf h, GET_dns_records cf h] @
          map (\<lambda>r. PUT_dns_record cf (rec_id r) (a_record_data h ?a))
              (filter (\<lambda>r. rec_content r \<noteq> Some ?a) results)"
      by simp
  qed
  have "\<exists>s0 y s1.
            create_cloudflare_a_record (recursion_limit p) p h ?a cf
              (print (New_domain_detected h ?a) s0) = (y, s1) \<and>
            prefix (reqs s1) (reqs (effects (main cfg p fs))) \<and>
            prefix (out s1) (out (effects (main cfg p fs))) \<and>
            load_stored_ips (files_after (main cfg p fs)) h =
              (if y = None then Some ?a else None) \<and>
            (\<forall>e. y = Some e \<longrightarrow>
                 Error_processing_creation h e \<in> set (out (effects (main cfg p fs)))) \<and>
            (0 < recursion_limit p \<longrightarrow>
               (\<exists>rest. reqs s1 = reqs s0 @ GET_dns_records cf h # rest)) \<and>
            (0 < recursion_limit p \<and>
             fst (get_dns_records p h cf (print (New_domain_detected h ?a) s0)) = Inr [] \<longrightarrow>
               reqs s1 = reqs s0 @ [GET_dns_records cf h,
                                    POST_dns_records cf (a_record_data h ?a)]) \<and>
            (\<forall>found results.
               1 < recursion_limit p \<and>
               fst (get_dns_records p h cf (print (New_domain_detected h ?a) s0)) =
                 Inr found \<and> found \<noteq> [] \<and>
               fst (get_dns_records p h cf
                      (print (A_record_already_exists h)
                         (snd (get_dns_records p h cf
                                 (print (New_domain_detected h ?a) s0))))) =
                 Inr results \<and> results \<noteq> [] \<and> y = None \<longrightarrow>
               reqs s1 = reqs s0 @ [GET_dns_records cf h, GET_dns_records cf h] @
                 map (\<lambda>r. PUT_dns_record cf (rec_id r) (a_record_data h ?a))
                     (filter (\<lambda>r. rec_content r \<noteq> Some ?a) results))"
    using C pre entry err first post put
    by (intro exI [of _ s0] exI [of _ y] exI [of _ s1] conjI)
  with m empty msg show ?thesis by simp
qed

theorem lost_store_recreates_every_host_witness:
  "''a.example.com'' \<in> set (previous_domains
      \<lparr>hosts_filename = Some ''a.example.com'', domain_ips_file = Some Unparseable,
        last_ip_file = Some ''198.51.100.1''\<rparr>) \<and>
   returned (main example_config
      (online [[''a.example.com'']] (Http 200 (Json_Ip ''203.0.113.7'')) (dns_holding [] 200))
      \<lparr>hosts_filename = Some ''a.example.com'', domain_ips_file = Some Unparseable,
        last_ip_file = Some ''198.51.100.1''\<rparr>) = Inr 0 \<and>
   New_domain_detected ''a.example.com'' ''203.0.113.7'' \<in> set (out (effects (main example_config
      (online [[''a.example.com'']] (Http 200 (Json_Ip ''203.0.113.7'')) (dns_holding [] 200))
      \<lparr>hosts_filename = Some ''a.example.com'', domain_ips_file = Some Unparseable,
        last_ip_file = Some ''198.51.100.1''\<rparr>))) \<and>
   reqs (effects (main example_config
      (online [[''a.example.com'']] (Http 200 (Json_Ip ''203.0.113.7'')) (dns_holding [] 200))
      \<lparr>hosts_filename = Some ''a.example.com'', domain_ips_file = Some Unparseable,
        last_ip_file = Some ''198.51.100.1''\<rparr>)) =
     [POST_tokens ''http://npm:81'' ''admin'' ''changeme'',
      GET_proxy_hosts ''http://npm:81'' ''jwt'', GET_ipify,
      GET_dns_records zone_a ''a.example.com'',
      POST_dns_records zone_a (a_record_data ''a.example.com'' ''203.0.113.7'')] \<and>
   load_stored_ips (files_after (main example_config
      (online [[''a.example.com'']] (Http 200 (Json_Ip ''203.0.113.7'')) (dns_holding [] 200))
      \<lparr>hosts_filename = Some ''a.example.com'', domain_ips_file = Some Unparseable,
        last_ip_file = Some ''198.51.100.1''\<rparr>)) ''a.example.com'' = Some ''203.0.113.7''"
proof -
  let ?p = "online [[''a.example.com'']] (Http 200 (Json_Ip ''203.0.113.7'')) (dns_holding [] 200)"
  let ?fs = "\<lparr>hosts_filename = Some ''a.example.com'', domain_ips_file = Some Unparseable,
        last_ip_file = Some ''198.51.100.1''\<rparr>"
  let ?s = "\<lparr>reqs = [POST_tokens ''http://npm:81'' ''admin'' ''changeme'',
                       GET_proxy_hosts ''http://npm:81'' ''jwt''], out = []\<rparr>"
  let ?s' = "\<lparr>reqs = [POST_tokens ''http://npm:81'' ''admin'' ''changeme'',
                       GET_proxy_hosts ''http://npm:81'' ''jwt'', GET_ipify], out = []\<rparr>"
  have 1: "inventory example_config ?p start = (Inr [''a.example.com''], ?s)"
    by (simp add: run_defs Let_def)
  have 2: "get_public_ip ?p ?s = (Some ''203.0.113.7'', ?s')"
    by (simp add: run_defs Let_def)
  have 3: "''203.0.113.7'' \<noteq> []" by simp
  have 4: "set [''a.example.com''] \<noteq> set (previous_domains ?fs) \<or>
           last_known_ip ?fs \<noteq> Some ''203.0.113.7'' \<or> force_update ?p"
    by (simp add: run_defs)
  have 5: "domain_ips_file ?fs = None \<or> domain_ips_file ?fs = Some Unparseable" by simp
  have 6: "''a.example.com'' \<in> set [''a.example.com'']" by simp
  have 7: "first_root (CLOUDFLARE_CONFIG example_config) ''a.example.com'' = Some zone_a"
    by (simp add: run_defs)
  have 8: "''a.example.com'' \<in> set (previous_domains ?fs)"
    by (simp add: run_defs)
  have 9: "reqs (effects (main example_config ?p ?fs)) =
     [POST_tokens ''http://npm:81'' ''admin'' ''changeme'',
      GET_proxy_hosts ''http://npm:81'' ''jwt'', GET_ipify,
      GET_dns_records zone_a ''a.example.com'',
      POST_dns_records zone_a (a_record_data ''a.example.com'' ''203.0.113.7'')]"
    by (simp add: run_defs Let_def create_unfold update_unfold)
  have 10: "load_stored_ips (files_after (main example_config ?p ?fs)) ''a.example.com'' =
              Some ''203.0.113.7''"
    by (simp add: run_defs Let_def create_unfold update_unfold)
  from lost_store_recreates_every_host [OF 1 2 3 4 5 6 7]
  have "returned (main example_config ?p ?fs) = Inr 0"
    "New_domain_detected ''a.example.com'' ''203.0.113.7'' \<in> set (out (effects (main example_config ?p ?fs)))"
    by blast+
  with 8 9 10 show ?thesis by simp
qed

text \<open>
  C10 as stated fails in two ways. With \<open>domain_ips.json\<close> missing while the host file
  and the last IP agree with the inventory and the public IP, the run exits early: it
  never reads the store, calls no create and writes no entry. With an unparseable store
  and a changed public IP the run takes the branch for new domains, but the provider
  rejects the lookup with status 500: \<open>main\<close> prints the exception and the routable
  host name of the current set gets no entry.
\<close>

theorem lost_store_without_create_or_entry:
  "domain_ips_file
      \<lparr>hosts_filename = Some ''a.example.com'', domain_ips_file = None,
        last_ip_file = Some ''203.0.113.7''\<rparr> = None \<and>
   fst (inventory example_config
      (online [[''a.example.com'']] (Http 200 (Json_Ip ''203.0.113.7'')) (dns_holding [] 200))
      start) = Inr [''a.example.com''] \<and>
   fst (get_cf_config_for_domain example_config ''a.example.com'' start) = Some zone_a \<and>
   returned (main example_config
      (online [[''a.example.com'']] (Http 200 (Json_Ip ''203.0.113.7'')) (dns_holding [] 200))
      \<lparr>hosts_filename = Some ''a.example.com'', domain_ips_file = None,
        last_ip_file = Some ''203.0.113.7''\<rparr>) = Inr 0 \<and>
   effects (main example_config
      (online [[''a.example.com'']] (Http 200 (Json_Ip ''203.0.113.7'')) (dns_holding [] 200))
      \<lparr>hosts_filename = Some ''a.example.com'', domain_ips_file = None,
        last_ip_file = Some ''203.0.113.7''\<rparr>) =
     \<lparr>reqs = [POST_tokens ''http://npm:81'' ''admin'' ''changeme'',
              GET_proxy_hosts ''http://npm:81'' ''jwt'', GET_ipify],
      out = [No_changes_detected]\<rparr> \<and>
   load_stored_ips (files_after (main example_config
      (online [[''a.example.com'']] (Http 200 (Json_Ip ''203.0.113.7'')) (dns_holding [] 200))
      \<lparr>hosts_filename = Some ''a.example.com'', domain_ips_file = None,
        last_ip_file = Some ''203.0.113.7''\<rparr>)) ''a.example.com'' = None \<and>
   returned (main example_config
      (online [[''a.example.com'']] (Http 200 (Json_Ip ''203.0.113.7'')) (\<lambda>r. Http 500 Json_Other))
      \<lparr>hosts_filename = Some ''a.example.com'', domain_ips_file = Some Unparseable,
        last_ip_file = Some ''198.51.100.1''\<rparr>) = Inr 0 \<and>
   effects (main example_config
      (online [[''a.example.com'']] (Http 200 (Json_Ip ''203.0.113.7'')) (\<lambda>r. Http 500 Json_Other))
      \<lparr>hosts_filename = Some ''a.example.com'', domain_ips_file = Some Unparseable,
        last_ip_file = Some ''198.51.100.1''\<rparr>) =
     \<lparr>reqs = [POST_tokens ''http://npm:81'' ''admin'' ''changeme'',
              GET_proxy_hosts ''http://npm:81'' ''jwt'', GET_ipify,
              GET_dns_records zone_a ''a.example.com''],
      out = [IP_change_detected ''198.51.100.1'' ''203.0.113.7'',
             New_domain_detected ''a.example.com'' ''203.0.113.7'',
             Error_processing_creation ''a.example.com'' (HTTPError 500)]\<rparr> \<and>
   load_stored_ips (files_after (main example_config
      (online [[''a.example.com'']] (Http 200 (Json_Ip ''203.0.113.7'')) (\<lambda>r. Http 500 Json_Other))
      \<lparr>hosts_filename = Some ''a.example.com'', domain_ips_file = Some Unparseable,
        last_ip_file = Some ''198.51.100.1''\<rparr>)) ''a.example.com'' = None"
  by (simp add: run_defs Let_def create_unfold update_unfold)

end
